theory Spec2Isabelle
  imports Main "HOL-Library.Word"
begin

section \<open>Wide strings\<close>

text \<open>
  \<^verbatim>\<open>std::wstring\<close> and \<^verbatim>\<open>const wchar_t*\<close> are modelled as \<open>string\<close>: a list of
  characters without the terminating NUL. The characters the modelled functions inspect
  (backslash, \<^verbatim>\<open>|\<close>, \<^verbatim>\<open>-\<close>, \<^verbatim>\<open>.\<close>, \<^verbatim>\<open>*\<close>, CR, LF and the regex specials) are all ASCII.
\<close>

type_synonym wstring = string

abbreviation bslash :: char where "bslash \<equiv> CHR 0x5C"
abbreviation CR :: char where "CR \<equiv> CHR 0x0D"
abbreviation LF :: char where "LF \<equiv> CHR 0x0A"

text \<open>
  \<^verbatim>\<open>::towlower\<close> of the C runtime, on the letters \<^verbatim>\<open>A\<close> to \<^verbatim>\<open>Z\<close>; every other character is
  left as it is.
\<close>

definition towlower :: "char \<Rightarrow> char" where
  "towlower c =
     (case map_of (zip ''ABCDEFGHIJKLMNOPQRSTUVWXYZ'' ''abcdefghijklmnopqrstuvwxyz'') c of
        None \<Rightarrow> c
      | Some l \<Rightarrow> l)"

text \<open>
  \<^verbatim>\<open>wcsrchr(s, ch)\<close>: the position of the last \<^verbatim>\<open>ch\<close> in \<^verbatim>\<open>s\<close>, or \<^verbatim>\<open>nullptr\<close> (here
  \<open>None\<close>) when there is none. \<open>wcsrchr_from\<close> is the scan, \<open>i\<close> the current position and
  \<open>found\<close> the last hit so far.
\<close>

fun wcsrchr_from :: "wstring \<Rightarrow> char \<Rightarrow> nat \<Rightarrow> nat option \<Rightarrow> nat option" where
  "wcsrchr_from [] ch i found = found"
| "wcsrchr_from (x # xs) ch i found =
     wcsrchr_from xs ch (Suc i) (if x = ch then Some i else found)"

definition wcsrchr :: "wstring \<Rightarrow> char \<Rightarrow> nat option" where
  "wcsrchr s ch = wcsrchr_from s ch 0 None"

text \<open>\<^verbatim>\<open>wcscspn(s, "|")\<close>: the length of the longest prefix of \<^verbatim>\<open>s\<close> without a \<^verbatim>\<open>|\<close>.\<close>

definition wcscspn_bar :: "wstring \<Rightarrow> nat" where
  "wcscspn_bar s = length (takeWhile (\<lambda>c. c \<noteq> CHR ''|'') s)"

text \<open>
  Modelled from the spec: the glob matcher \<^verbatim>\<open>wcswildcmp(wild, string)\<close> is called by
  \<^verbatim>\<open>MatchPath\<close> but its body is not among the sources. The spec calls the name patterns a
  glob list, so the model is the glob relation: \<^verbatim>\<open>*\<close> stands for any run of characters,
  \<^verbatim>\<open>?\<close> for any single character, every other character for itself.
\<close>

fun wcswildcmp :: "wstring \<Rightarrow> wstring \<Rightarrow> bool" where
  "wcswildcmp [] s = (s = [])"
| "wcswildcmp (w # ws) [] = (w = CHR ''*'' \<and> wcswildcmp ws [])"
| "wcswildcmp (w # ws) (c # cs) =
     (if w = CHR ''*'' then wcswildcmp ws (c # cs) \<or> wcswildcmp (w # ws) cs
      else (w = CHR ''?'' \<or> w = c) \<and> wcswildcmp ws cs)"

section \<open>The dialog's search settings\<close>

text \<open>
  The members of \<^verbatim>\<open>CSearchDlg\<close> that the modelled functions read. They are fixed while a
  search runs, except \<^verbatim>\<open>m_cancelled\<close>, which the user interface may set at any moment; the
  model takes the value that the running scan observes.
\<close>

record search_dlg =
  m_patterns :: "wstring list"
  m_patternRegex :: wstring
  m_bUseRegexForPaths :: bool
  m_bUseRegex :: bool
  m_bCaseSensitive :: bool
  m_bDotMatchesNewline :: bool
  m_bWholeWords :: bool
  m_bNotSearch :: bool
  m_bCaptureSearch :: bool
  m_bReplace :: bool
  m_bForceBinary :: bool
  m_bIncludeBinary :: bool
  m_cancelled :: bool

section \<open>Name patterns: \<^verbatim>\<open>SaveSettings\<close> and \<^verbatim>\<open>MatchPath\<close>\<close>

text \<open>
  The body of the \<^verbatim>\<open>if (!s.empty())\<close> block of the pattern loop in \<^verbatim>\<open>SaveSettings\<close>: the
  lower-cased pattern is appended, and after it the pattern without its last two characters
  when it has more than two characters and ends in \<^verbatim>\<open>.*\<close>.
\<close>

definition push_pattern :: "wstring \<Rightarrow> wstring list \<Rightarrow> wstring list" where
  "push_pattern s0 patterns =
     (let s = map towlower s0;
          patterns1 = patterns @ [s]
      in if last s = CHR ''*'' \<and> length s > 2
         then (if s ! (length s - 2) = CHR ''.''
               then patterns1 @ [take (length s - 2) s]
               else patterns1)
         else patterns1)"

text \<open>
  The \<^verbatim>\<open>do ... while (*pBuf && (*(pBuf - 1)))\<close> loop of \<^verbatim>\<open>SaveSettings\<close> over the text of
  the pattern field. After a segment, \<^verbatim>\<open>pBuf\<close> is moved behind the separator;
  \<^verbatim>\<open>*(pBuf - 1)\<close> is the separator itself, or the terminating NUL when the segment was the
  last one (\<open>pos = length pBuf\<close>), and \<^verbatim>\<open>*pBuf\<close> is NUL when nothing follows the separator.
\<close>

function split_patterns :: "wstring \<Rightarrow> wstring list \<Rightarrow> wstring list" where
  "split_patterns pBuf patterns =
     (let pos = wcscspn_bar pBuf;
          s = take pos pBuf;
          patterns1 = (if s \<noteq> [] then push_pattern s patterns else patterns);
          pBuf1 = drop (pos + 1) pBuf
      in if pBuf1 \<noteq> [] \<and> pos < length pBuf
         then split_patterns pBuf1 patterns1
         else patterns1)"
  by pat_completeness auto
termination
  by (relation "measure (\<lambda>(pBuf, patterns). length pBuf)") auto

declare split_patterns.simps [simp del]

text \<open>\<^verbatim>\<open>m_patterns.clear()\<close> followed by the loop.\<close>

definition SaveSettings_patterns :: "wstring \<Rightarrow> wstring list" where
  "SaveSettings_patterns buf = split_patterns buf []"

text \<open>The range-for loop of \<^verbatim>\<open>MatchPath\<close> over \<^verbatim>\<open>m_patterns\<close>.\<close>

fun MatchPath_loop :: "wstring list \<Rightarrow> wstring \<Rightarrow> bool \<Rightarrow> bool" where
  "MatchPath_loop [] fName bPattern = bPattern"
| "MatchPath_loop (pattern # rest) fName bPattern =
     MatchPath_loop rest fName
       (if pattern \<noteq> [] \<and> hd pattern = CHR ''-''
        then bPattern \<and> \<not> wcswildcmp (tl pattern) fName
        else bPattern \<or> wcswildcmp pattern fName)"

text \<open>
  \<^verbatim>\<open>CSearchDlg::MatchPath\<close>. The case-insensitive whole-text regex match \<^verbatim>\<open>grepWinMatchI\<close>
  runs the regex library and is a parameter.
\<close>

definition MatchPath :: "(wstring \<Rightarrow> wstring \<Rightarrow> bool) \<Rightarrow> search_dlg \<Rightarrow> wstring \<Rightarrow> bool" where
  "MatchPath grepWinMatchI dlg pathBuf =
     (if m_patterns dlg = [] then True
      else
        let pName = (case wcsrchr pathBuf bslash of
                       None \<Rightarrow> pathBuf
                     | Some i \<Rightarrow> drop (Suc i) pathBuf)
        in if m_bUseRegexForPaths dlg
           then (if grepWinMatchI (m_patternRegex dlg) pName then True
                 else if grepWinMatchI (m_patternRegex dlg) pathBuf then True
                 else False)
           else
             let bPattern = (hd (m_patterns dlg) \<noteq> [] \<and> hd (hd (m_patterns dlg)) = CHR ''-'');
                 fName = map towlower pName
             in MatchPath_loop (m_patterns dlg) fName bPattern)"

text \<open>
  The name filter as the specification words it: a left-to-right fold over the pattern
  list, started with whether the first pattern is an exclusion.
\<close>

definition is_exclusion :: "wstring \<Rightarrow> bool" where
  "is_exclusion p = (case p of [] \<Rightarrow> False | c # _ \<Rightarrow> c = CHR ''-'')"

definition glob_step :: "wstring \<Rightarrow> bool \<Rightarrow> wstring \<Rightarrow> bool" where
  "glob_step name acc p =
     (if is_exclusion p then acc \<and> \<not> wcswildcmp (tl p) name else acc \<or> wcswildcmp p name)"

definition glob_filter_spec :: "wstring list \<Rightarrow> wstring \<Rightarrow> bool" where
  "glob_filter_spec patterns name = foldl (glob_step name) (is_exclusion (hd patterns)) patterns"

text \<open>The basename of a path: what follows its last backslash.\<close>

definition basename :: "wstring \<Rightarrow> wstring" where
  "basename p = rev (takeWhile (\<lambda>c. c \<noteq> bslash) (rev p))"

text \<open>Two settings records used to evaluate the name filter on concrete paths.\<close>

definition name_dlg :: search_dlg where
  "name_dlg = \<lparr> m_patterns = SaveSettings_patterns ''name.*'', m_patternRegex = ''name.*'',
      m_bUseRegexForPaths = False, m_bUseRegex = False, m_bCaseSensitive = False,
      m_bDotMatchesNewline = False, m_bWholeWords = False,
      m_bNotSearch = False, m_bCaptureSearch = False, m_bReplace = False,
      m_bForceBinary = False, m_bIncludeBinary = False, m_cancelled = False \<rparr>"

definition glob_dlg :: search_dlg where
  "glob_dlg = \<lparr> m_patterns = [''-*.bak'', ''*.txt''], m_patternRegex = ''-*.bak|*.txt'',
      m_bUseRegexForPaths = False, m_bUseRegex = False, m_bCaseSensitive = False,
      m_bDotMatchesNewline = False, m_bWholeWords = False,
      m_bNotSearch = False, m_bCaptureSearch = False, m_bReplace = False,
      m_bForceBinary = False, m_bIncludeBinary = False, m_cancelled = False \<rparr>"

section \<open>Literal search text: \<^verbatim>\<open>escapeForRegexEx\<close> and the CRLF alternation\<close>

text \<open>
  Modelled from the spec: the string helper \<^verbatim>\<open>SearchReplace(str, toreplace, replacewith)\<close>
  is called here but its body is not among the sources. The spec says that the specials are
  escaped and that CRLF becomes the alternation, so the model replaces every occurrence of
  \<^verbatim>\<open>toreplace\<close>, from left to right, and does not look into the text it has just inserted.
  All calls modelled here pass a non-empty \<^verbatim>\<open>toreplace\<close>.
\<close>

function SearchReplace :: "wstring \<Rightarrow> wstring \<Rightarrow> wstring \<Rightarrow> wstring" where
  "SearchReplace str toreplace replacewith =
     (if str = [] then []
      else if toreplace \<noteq> [] \<and> take (length toreplace) str = toreplace
      then replacewith @ SearchReplace (drop (length toreplace) str) toreplace replacewith
      else hd str # SearchReplace (tl str) toreplace replacewith)"
  by pat_completeness auto
termination
  by (relation "measure (\<lambda>(str, toreplace, replacewith). length str)") auto

declare SearchReplace.simps [simp del]

text \<open>The two tables of \<^verbatim>\<open>escapeForRegexEx\<close>, in the order of the source.\<close>

definition specialChar :: "wstring list" where
  "specialChar =
     [[bslash],
      ''^'', ''$'', ''.'', ''?'', ''*'', ''+'', ''['', '']'', ''('', '')'', ''{'', ''}'', ''|'',
      [CHR 0x22], '' '', [CHR 0x09]]"

definition specialEscaped :: "wstring list" where
  "specialEscaped =
     [bslash # ''x5c'',
      bslash # ''^'', bslash # ''$'', bslash # ''.'', bslash # ''?'', bslash # ''*'',
      bslash # ''+'', bslash # ''['', bslash # '']'', bslash # ''('', bslash # '')'',
      bslash # ''{'', bslash # ''}'', bslash # ''|'',
      bslash # ''x22'', bslash # ''x20'', bslash # ''x09'']"

text \<open>
  \<^verbatim>\<open>escapeForRegexEx(str, type)\<close>: type 1 uses all 17 table rows, every other type the
  first 14; the rows are applied one after the other to the whole string.
\<close>

definition escapeForRegexEx :: "wstring \<Rightarrow> int \<Rightarrow> wstring" where
  "escapeForRegexEx str type =
     (let count = (if type = 1 then length specialChar else 14)
      in fold (\<lambda>i s. SearchReplace s (specialChar ! i) (specialEscaped ! i)) [0..<count] str)"

text \<open>The C++ literal \<^verbatim>\<open>L"(?:\\n|\\r|\\r\\n)"\<close>: the regex text \<^verbatim>\<open>(?:\n|\r|\r\n)\<close>.\<close>

definition crlf_alternation :: wstring where
  "crlf_alternation = ''(?:'' @ bslash # ''n|'' @ bslash # ''r|'' @ bslash # ''r'' @ bslash # ''n)''"

text \<open>
  What \<^verbatim>\<open>SearchThread\<close> does to \<^verbatim>\<open>m_searchString\<close> when \<^verbatim>\<open>m_bUseRegex\<close> is off, before any
  file is searched.
\<close>

definition literal_search_string :: "wstring \<Rightarrow> wstring" where
  "literal_search_string m_searchString =
     (if m_searchString \<noteq> []
      then SearchReplace (escapeForRegexEx m_searchString 0) [CR, LF] crlf_alternation
      else m_searchString)"

text \<open>
  The literal-to-regex translation as the specification words it, in one pass over the
  literal: a CRLF pair becomes the alternation, a backslash becomes \<^verbatim>\<open>\x5c\<close>, each of
  \<^verbatim>\<open>^ $ . ? * + [ ] ( ) { } |\<close> gets a backslash in front, and every other character is
  copied.
\<close>

definition regex_special :: "char set" where
  "regex_special = set ''^$.?*+[](){}|''"

definition escape_char_spec :: "char \<Rightarrow> wstring" where
  "escape_char_spec c =
     (if c = bslash then bslash # ''x5c''
      else if c \<in> regex_special then [bslash, c]
      else [c])"

fun literal_regex_spec :: "wstring \<Rightarrow> wstring" where
  "literal_regex_spec [] = []"
| "literal_regex_spec (c # d # rest) =
     (if c = CR \<and> d = LF then crlf_alternation @ literal_regex_spec rest
      else escape_char_spec c @ literal_regex_spec (d # rest))"
| "literal_regex_spec [c] = escape_char_spec c"

section \<open>Backup file names: \<^verbatim>\<open>BackupFile\<close>\<close>

text \<open>
  Modelled from the spec: \<^verbatim>\<open>CPathUtils::GetParentDirectory\<close> and \<^verbatim>\<open>CPathUtils::GetFileName\<close>
  are called by \<^verbatim>\<open>BackupFile\<close> but their bodies are not among the sources. The spec writes
  the backup path as root, backup folder and relative path, so the model splits a path at
  its last backslash: the parent directory is what stands before it (nothing when the path
  has no backslash), the file name what stands behind it. The paths come from the directory
  walker, where the backslash is the only separator.
\<close>

definition GetParentDirectory :: "wstring \<Rightarrow> wstring" where
  "GetParentDirectory path =
     (case wcsrchr path bslash of None \<Rightarrow> [] | Some i \<Rightarrow> take i path)"

definition GetFileName :: "wstring \<Rightarrow> wstring" where
  "GetFileName path =
     (case wcsrchr path bslash of None \<Rightarrow> path | Some i \<Rightarrow> drop (Suc i) path)"

text \<open>
  The first part of \<^verbatim>\<open>BackupFile\<close>: the name of the backup file. \<open>backupInFolder\<close> is the
  value of the setting read from the registry or the ini file.
  \<^verbatim>\<open>filePath.substr(destParentDir.size() + 1)\<close> throws \<^verbatim>\<open>std::out_of_range\<close> when the
  position lies behind the end of \<^verbatim>\<open>filePath\<close>; that is the result \<open>None\<close>.
\<close>

definition backupFile_name :: "bool \<Rightarrow> wstring \<Rightarrow> wstring \<Rightarrow> wstring option" where
  "backupFile_name backupInFolder destParentDir filePath =
     (if backupInFolder
      then (if length filePath < length destParentDir + 1 then None
            else
              let backupFolder = destParentDir @ [bslash] @ ''grepWin_backup'' @ [bslash];
                  backupFolder1 = backupFolder @ drop (length destParentDir + 1) filePath;
                  backupFolder2 = GetParentDirectory backupFolder1
              in Some (backupFolder2 @ [bslash] @ GetFileName filePath))
      else Some (filePath @ ''.bak''))"

text \<open>
  \<^verbatim>\<open>BackupFile\<close>: \<open>bOk\<close> is the outcome of \<^verbatim>\<open>MoveFileEx\<close> or \<^verbatim>\<open>CopyFile\<close>. The result is the
  returned name (empty on failure) and the new content of \<^verbatim>\<open>m_backupAndTempFiles\<close>.
\<close>

definition BackupFile ::
  "bool \<Rightarrow> bool \<Rightarrow> wstring set \<Rightarrow> wstring \<Rightarrow> wstring \<Rightarrow> (wstring \<times> wstring set) option" where
  "BackupFile backupInFolder bOk m_backupAndTempFiles destParentDir filePath =
     (case backupFile_name backupInFolder destParentDir filePath of
        None \<Rightarrow> None
      | Some backupFile \<Rightarrow>
          if \<not> bOk then Some ([], m_backupAndTempFiles)
          else Some (backupFile, insert backupFile m_backupAndTempFiles))"

text \<open>A search root and a file below it, for evaluation.\<close>

definition work_root :: wstring where
  "work_root = ''C:'' @ [bslash] @ ''work''"

definition work_file :: wstring where
  "work_file = work_root @ [bslash] @ ''sub'' @ [bslash] @ ''a.txt''"

section \<open>Search results and events\<close>

text \<open>The encodings of \<^verbatim>\<open>CTextFile::UnicodeType\<close>; \<open>AutoType\<close> is what a failed load leaves.\<close>

datatype UnicodeType = AutoType | Binary | Ansi | Unicode_Le | Unicode_Be | UTF8

type_synonym DWORD = "32 word"

text \<open>
  Modelled from the spec: the class \<^verbatim>\<open>CSearchInfo\<close> is declared in a header that is not among
  the sources. The record has the fields that the spec lists for a file result and that
  the matchers write: the three arrays hold \<^verbatim>\<open>DWORD\<close> values, the line cache is a map from a
  \<^verbatim>\<open>DWORD\<close> key to the text of a line.
\<close>

record CSearchInfo =
  filePath :: wstring
  fileSize :: nat
  encoding :: UnicodeType
  matchCount :: nat
  matchLinesNumbers :: "DWORD list"
  matchColumnsNumbers :: "DWORD list"
  matchLengths :: "DWORD list"
  matchLinesMap :: "DWORD \<rightharpoonup> wstring"
  readError :: bool
  exception :: wstring

text \<open>\<^verbatim>\<open>CSearchInfo sInfo(sPath)\<close> as the directory walker creates it for a file.\<close>

definition CSearchInfo_new :: "wstring \<Rightarrow> nat \<Rightarrow> CSearchInfo" where
  "CSearchInfo_new path sz =
     \<lparr> filePath = path, fileSize = sz, encoding = AutoType, matchCount = 0,
       matchLinesNumbers = [], matchColumnsNumbers = [], matchLengths = [],
       matchLinesMap = Map.empty, readError = False, exception = [] \<rparr>"

text \<open>
  The four window messages sent to the dialog, with their \<^verbatim>\<open>wParam\<close> and, for a found
  file, the result that \<^verbatim>\<open>lParam\<close> points to. \<^verbatim>\<open>SendMessage\<close> returns after the dialog has
  handled the message, so a list of events in the order of the calls is the order in which
  the dialog sees them.
\<close>

datatype event =
    SEARCH_START
  | SEARCH_PROGRESS bool
  | SEARCH_FOUND bool CSearchInfo
  | SEARCH_END

text \<open>\<^verbatim>\<open>CSearchDlg::SendResult\<close>: the messages it sends, in the order of its statements.\<close>

definition SendResult :: "search_dlg \<Rightarrow> CSearchInfo \<Rightarrow> int \<Rightarrow> event list" where
  "SendResult dlg sInfo nCount =
     (let progress = [SEARCH_PROGRESS (nCount \<ge> 0)];
          bAsResult = (if m_bNotSearch dlg then nCount \<le> 0 else nCount > 0)
      in if bAsResult then progress @ [SEARCH_FOUND bAsResult sInfo] else progress)"

section \<open>The regex engine\<close>

text \<open>
  The regex library is outside the model. A compiled regex, run on the content of the file
  at hand, is a function from the match flags and the two ends of the searched range to
  the result of \<^verbatim>\<open>regex_search\<close>: no match, the two ends of \<^verbatim>\<open>whatC[0]\<close>, or an exception.
  Positions count characters of the matcher's character type from the start of the
  searched buffer. Of the match flags only the four that the code sets are named.
  A regex whose constructor throws is the value \<open>None\<close> of type \<open>regex option\<close>.
\<close>

datatype match_flag = match_not_dot_newline | format_all | match_prev_avail | match_not_bob

datatype search_result = NoMatch | Match nat nat | SearchThrows

type_synonym regex = "match_flag set \<Rightarrow> nat \<Rightarrow> nat \<Rightarrow> search_result"



text \<open>
  A regex whose search does not throw on the content at hand.
\<close>

definition regex_no_throw :: "regex \<Rightarrow> bool" where
  "regex_no_throw regEx \<longleftrightarrow> (\<forall>flags s e. regEx flags s e \<noteq> SearchThrows)"

definition SEARCHBLOCKSIZE :: nat where
  "SEARCHBLOCKSIZE = 2 ^ 26"

section \<open>The search loop of the two matchers\<close>

text \<open>
  The local variables of the loop that change: the scan position, the end of the current
  block, the hit counter, the match flags and the result under construction.
\<close>

record scan =
  startIter :: nat
  blockEnd :: nat
  nFound :: int
  mFlags :: "match_flag set"
  sInfo :: CSearchInfo

text \<open>
  \<^verbatim>\<open>SearchOnTextFile\<close> and \<^verbatim>\<open>SearchByFilePath\<close> contain the same loop, statement by
  statement; they differ in what they record at a hit and in the size of a block. The loop
  is modelled once, with the recording \<open>on_hit\<close> and the block size as parameters. In
  replace mode the loop also writes the replaced text; nothing in the loop reads it back,
  and the model leaves the written text out.

  The end of the \<^verbatim>\<open>while\<close> body: the scan position moves to the end of the hit, and for an
  empty hit either the loop is left (hit at the end of the block, result \<open>True\<close>) or the scan
  position moves on by one.
\<close>

definition advance_past_hit :: "scan \<Rightarrow> nat \<Rightarrow> nat \<Rightarrow> scan \<times> bool" where
  "advance_past_hit st first second =
     (let st1 = st\<lparr>startIter := second\<rparr>
      in if second = first
         then (if second = blockEnd st1 then (st1, True)
               else (st1\<lparr>startIter := second + 1\<rparr>, False))
         else (st1, False))"

text \<open>
  The inner \<^verbatim>\<open>while\<close> loop. The second component of the result says whether
  \<^verbatim>\<open>regex_search\<close> threw. A loop that does not end has the result \<open>None\<close>.
\<close>

partial_function (option) search_while ::
  "search_dlg \<Rightarrow> regex \<Rightarrow> (nat \<Rightarrow> nat \<Rightarrow> CSearchInfo \<Rightarrow> CSearchInfo) \<Rightarrow> scan
     \<Rightarrow> (scan \<times> bool) option" where
  "search_while dlg regEx on_hit st =
     (if \<not> m_cancelled dlg \<and> startIter st < blockEnd st
      then
        (case regEx (mFlags st) (startIter st) (blockEnd st) of
           SearchThrows \<Rightarrow> Some (st, True)
         | NoMatch \<Rightarrow> Some (st, False)
         | Match first second \<Rightarrow>
             let st1 = st\<lparr>nFound := nFound st + 1\<rparr>
             in if m_bNotSearch dlg then Some (st1, False)
                else
                  let st2 = st1\<lparr>mFlags := mFlags st1 \<union> {match_prev_avail, match_not_bob},
                                sInfo := on_hit first second (sInfo st1)\<rparr>;
                      (st3, break) = advance_past_hit st2 first second
                  in if break then Some (st3, False)
                     else search_while dlg regEx on_hit st3)
      else Some (st, False))"

text \<open>The outer \<^verbatim>\<open>do ... while (!m_cancelled)\<close> loop over the blocks.\<close>

partial_function (option) search_blocks ::
  "search_dlg \<Rightarrow> regex \<Rightarrow> (nat \<Rightarrow> nat \<Rightarrow> CSearchInfo \<Rightarrow> CSearchInfo) \<Rightarrow> nat \<Rightarrow> nat \<Rightarrow> scan
     \<Rightarrow> (scan \<times> bool) option" where
  "search_blocks dlg regEx on_hit block end st =
     (case search_while dlg regEx on_hit st of
        None \<Rightarrow> None
      | Some (st1, thrown) \<Rightarrow>
          if thrown then Some (st1, True)
          else
            let st2 = (if startIter st1 < blockEnd st1 then st1\<lparr>startIter := blockEnd st1\<rparr> else st1)
            in if blockEnd st2 < end
               then
                 let st3 = st2\<lparr>blockEnd := blockEnd st2 + block\<rparr>
                 in if \<not> m_cancelled dlg then search_blocks dlg regEx on_hit block end st3
                    else Some (st3, False)
               else Some (st2, False))"

text \<open>
  How a matcher ends: it returns a count with the result it has built, or an exception
  leaves it, with what was written to the result until then.
\<close>

datatype outcome = Returned CSearchInfo int | Thrown CSearchInfo

section \<open>The text matcher: \<^verbatim>\<open>SearchOnTextFile\<close>\<close>

text \<open>
  What the matcher gets from the loaded \<^verbatim>\<open>CTextFile\<close> and from the system: the number of
  characters, the regex built from the search expression, the line index of the file, the
  formatted replacement of a hit (capture search), the text of a thrown exception, and
  the outcome of saving and adopting the temporary file (replace). The values of type
  \<^verbatim>\<open>long\<close> are integers; the model does not cut them to 32 bits.
\<close>

record text_env =
  te_count :: nat
  te_wRegEx :: "regex option"
  te_LineFromPosition :: "int \<Rightarrow> int"
  te_ColumnFromPosition :: "int \<Rightarrow> int \<Rightarrow> int"
  te_GetLineString :: "int \<Rightarrow> wstring"
  te_format :: "nat \<Rightarrow> nat \<Rightarrow> wstring"
  te_what :: wstring
  te_Save :: bool
  te_AdoptTempResultFile :: int

text \<open>The \<^verbatim>\<open>for (long l = lineStart; l <= lineEnd; ++l)\<close> loop over the lines of a hit.\<close>

function text_hit_lines ::
  "text_env \<Rightarrow> int \<Rightarrow> int \<Rightarrow> int \<Rightarrow> int \<Rightarrow> CSearchInfo \<Rightarrow> CSearchInfo" where
  "text_hit_lines te l lineEnd colMatch lenMatch si =
     (if l \<le> lineEnd
      then
        let si1 = (if matchLinesMap si (word_of_int l) = None
                   then si\<lparr>matchLinesMap := (matchLinesMap si)(word_of_int l \<mapsto> te_GetLineString te l)\<rparr>
                   else si);
            sLine = (case matchLinesMap si1 (word_of_int l) of Some s \<Rightarrow> s | None \<Rightarrow> []);
            lenLineMatch0 = int (length sLine) - colMatch + 1;
            lenLineMatch = (if lenMatch < lenLineMatch0 then lenMatch else lenLineMatch0);
            si2 = si1\<lparr>matchLinesNumbers := matchLinesNumbers si1 @ [word_of_int l],
                      matchColumnsNumbers := matchColumnsNumbers si1 @ [word_of_int colMatch],
                      matchLengths := matchLengths si1 @ [word_of_int lenLineMatch]\<rparr>
        in if lenMatch > lenLineMatch
           then text_hit_lines te (l + 1) lineEnd 1 (lenMatch - lenLineMatch) si2
           else text_hit_lines te (l + 1) lineEnd colMatch lenMatch si2
      else si)"
  by pat_completeness auto
termination
  by (relation "measure (\<lambda>(te, l, lineEnd, colMatch, lenMatch, si). nat (lineEnd + 1 - l))") auto

declare text_hit_lines.simps [simp del]

text \<open>What the text matcher records at a hit, up to \<^verbatim>\<open>++sInfo.matchCount\<close>.\<close>

definition text_hit :: "search_dlg \<Rightarrow> text_env \<Rightarrow> nat \<Rightarrow> nat \<Rightarrow> CSearchInfo \<Rightarrow> CSearchInfo" where
  "text_hit dlg te first second si =
     (let posMatchHead = int first;
          posMatchTail = (if first < second then int second - 1 else int second);
          lineStart = te_LineFromPosition te posMatchHead;
          lineEnd = te_LineFromPosition te posMatchTail;
          colMatch = te_ColumnFromPosition te posMatchHead lineStart;
          lenMatch = int second - int first;
          si1 =
            (if m_bCaptureSearch dlg
             then
               let si0 = (if matchLinesMap si (word_of_int lineStart) = None
                          then si\<lparr>matchLinesMap :=
                                 (matchLinesMap si)(word_of_int lineStart \<mapsto> te_format te first second)\<rparr>
                          else si);
                   out = (case matchLinesMap si0 (word_of_int lineStart) of Some s \<Rightarrow> s | None \<Rightarrow> [])
               in si0\<lparr>matchLinesNumbers := matchLinesNumbers si0 @ [word_of_int lineStart],
                      matchColumnsNumbers := matchColumnsNumbers si0 @ [word_of_int colMatch],
                      matchLengths := matchLengths si0 @ [of_nat (length out)]\<rparr>
             else text_hit_lines te lineStart lineEnd colMatch lenMatch si)
      in si1\<lparr>matchCount := matchCount si1 + 1\<rparr>)"

text \<open>
  \<^verbatim>\<open>CSearchDlg::SearchOnTextFile\<close>. \<open>matchFlags\<close> is the parameter of that name. The search
  expression only reaches the regex constructor, whose result is \<open>te_wRegEx\<close>.
\<close>

definition SearchOnTextFile ::
  "search_dlg \<Rightarrow> text_env \<Rightarrow> match_flag set \<Rightarrow> CSearchInfo \<Rightarrow> outcome option" where
  "SearchOnTextFile dlg te matchFlags si =
     (case te_wRegEx te of
        None \<Rightarrow> Some (Thrown si)
      | Some wRegEx \<Rightarrow>
          let remainder = te_count te mod (SEARCHBLOCKSIZE div 2);
              st0 = \<lparr> startIter = 0, blockEnd = remainder, nFound = 0,
                      mFlags = matchFlags, sInfo = si \<rparr>
          in case search_blocks dlg wRegEx (text_hit dlg te) (SEARCHBLOCKSIZE div 2) (te_count te) st0 of
               None \<Rightarrow> None
             | Some (st, thrown) \<Rightarrow>
                 if thrown then Some (Thrown (sInfo st))
                 else if \<not> m_bReplace dlg \<or> m_cancelled dlg \<or> nFound st = 0
                 then Some (Returned (sInfo st) (nFound st))
                 else if \<not> te_Save te then Some (Returned (sInfo st) (- 1))
                 else if te_AdoptTempResultFile te \<le> 0 then Some (Returned (sInfo st) (- 1))
                 else Some (Returned (sInfo st) (nFound st)))"

section \<open>The byte matcher: \<^verbatim>\<open>SearchByFilePath\<close>\<close>

text \<open>
  What one call of the matcher gets from the system: whether the file could be mapped, its
  size in bytes, the regex built for the character type and the assumed encoding, whether
  the temporary file could be opened (replace), the line index that \<^verbatim>\<open>TextOffset\<close> computes
  for the scanned range, and the decoded text of a line given by its start and length.
\<close>

record byte_env =
  be_is_open :: bool
  be_inSize :: nat
  be_regEx :: "regex option"
  be_outFile_is_open :: bool
  be_LineFromPosition :: "DWORD \<Rightarrow> DWORD"
  be_ColumnFromPosition :: "DWORD \<Rightarrow> DWORD \<Rightarrow> DWORD"
  be_PositionsFromLine :: "DWORD \<Rightarrow> nat \<times> nat"
  be_line :: "nat \<Rightarrow> nat \<Rightarrow> wstring"

text \<open>
  What the byte matcher records at a hit: the position of the hit in the first array and
  its length in the second. The third array gets nothing here.
\<close>

definition byte_hit :: "nat \<Rightarrow> nat \<Rightarrow> CSearchInfo \<Rightarrow> CSearchInfo" where
  "byte_hit first second si =
     si\<lparr>matchLinesNumbers := matchLinesNumbers si @ [of_nat first],
        matchColumnsNumbers := matchColumnsNumbers si @ [of_nat second - of_nat first],
        matchCount := matchCount si + 1\<rparr>"

text \<open>
  The body of the loop \<^verbatim>\<open>for (size_t mp = 0; mp < sInfo.matchLinesNumbers.size(); ++mp)\<close>
  that runs after the scan: entry \<open>mp\<close> of the first two arrays is turned from position
  and length into line and column, and one entry is appended to \<^verbatim>\<open>matchLengths\<close>. The
  first two arrays are only ever extended together, so \<open>mp\<close> is an index of both.
\<close>

definition line_step :: "byte_env \<Rightarrow> nat \<Rightarrow> nat \<Rightarrow> CSearchInfo \<Rightarrow> CSearchInfo" where
  "line_step be sizeof_CharT mp si =
     (let pos = matchLinesNumbers si ! mp;
          line = be_LineFromPosition be pos;
          lenMatchLength = matchColumnsNumbers si ! mp;
          column = be_ColumnFromPosition be pos line;
          si1 = si\<lparr>matchLinesNumbers := (matchLinesNumbers si)[mp := line],
                   matchColumnsNumbers := (matchColumnsNumbers si)[mp := column]\<rparr>;
          (lineStart, lineEnd) = be_PositionsFromLine be line;
          lineLength = lineEnd - lineStart
      in if lineLength > 0 \<and> lineLength < 4096
         then
           (if sizeof_CharT > 1
            then
              let si2 = (if matchLinesMap si1 pos = None
                         then si1\<lparr>matchLinesMap := (matchLinesMap si1)(pos \<mapsto> be_line be lineStart lineLength)\<rparr>
                         else si1);
                  sLine = (case matchLinesMap si2 pos of Some s \<Rightarrow> s | None \<Rightarrow> []);
                  lenMatchLength1 = min lenMatchLength (of_nat (length sLine) - column)
              in si2\<lparr>matchLengths := matchLengths si2 @ [lenMatchLength1]\<rparr>
            else
              let lenMatchLength1 = min lenMatchLength (of_nat lineLength - column);
                  si2 = (if matchLinesMap si1 pos = None
                         then si1\<lparr>matchLinesMap := (matchLinesMap si1)(pos \<mapsto> be_line be lineStart lineLength)\<rparr>
                         else si1)
              in si2\<lparr>matchLengths := matchLengths si2 @ [lenMatchLength1]\<rparr>)
         else si1\<lparr>matchLinesMap := (matchLinesMap si1)(pos \<mapsto> []),
                  matchLengths := matchLengths si1 @ [0]\<rparr>)"

function line_loop :: "byte_env \<Rightarrow> nat \<Rightarrow> nat \<Rightarrow> CSearchInfo \<Rightarrow> CSearchInfo" where
  "line_loop be sizeof_CharT mp si =
     (if mp < length (matchLinesNumbers si)
      then line_loop be sizeof_CharT (mp + 1) (line_step be sizeof_CharT mp si)
      else si)"
  by pat_completeness auto
termination
  by (relation "measure (\<lambda>(be, sz, mp, si). length (matchLinesNumbers si) - mp)")
     (auto simp: line_step_def Let_def split: prod.splits)

declare line_loop.simps [simp del]

text \<open>
  \<^verbatim>\<open>CSearchDlg::SearchByFilePath<CharT>\<close>, with \<open>sizeof_CharT\<close> 1 for \<^verbatim>\<open>char\<close> and 2 for
  \<^verbatim>\<open>wchar_t\<close>. A position pushed at a hit is \<^verbatim>\<open>whatC[0].first - fBeg\<close>; in the misaligned pass
  the scan starts one byte behind \<^verbatim>\<open>fBeg\<close> and the difference of the two pointers, counted in
  characters, is the position from the start of the scan. The writes to the temporary
  file and the adoption of it, whose result the function ignores, are left out.
\<close>

definition SearchByFilePath ::
  "search_dlg \<Rightarrow> byte_env \<Rightarrow> nat \<Rightarrow> match_flag set \<Rightarrow> bool \<Rightarrow> CSearchInfo \<Rightarrow> outcome option" where
  "SearchByFilePath dlg be sizeof_CharT matchFlags misaligned si =
     (if \<not> be_is_open be then Some (Returned si (- 1))
      else
        let inSize = be_inSize be;
            skipSize0 = (0::nat);
            workSize0 = inSize - skipSize0;
            (skipSize, workSize1) =
               (if sizeof_CharT > 1 \<and> misaligned \<and> skipSize0 < inSize
                then (skipSize0 + 1, workSize0 - 1) else (skipSize0, workSize0));
            dropSize = (if sizeof_CharT > 1 then workSize1 mod sizeof_CharT else 0);
            workSize = (if dropSize > 0 then workSize1 - dropSize else workSize1)
        in if workSize = 0 then Some (Returned si 0)
           else
             case be_regEx be of
               None \<Rightarrow> Some (Thrown si)
             | Some regEx \<Rightarrow>
                 let count = workSize div sizeof_CharT;
                     remainder = count mod (SEARCHBLOCKSIZE div sizeof_CharT);
                     st0 = \<lparr> startIter = 0, blockEnd = remainder, nFound = 0,
                             mFlags = matchFlags, sInfo = si \<rparr>
                 in if m_bReplace dlg \<and> \<not> be_outFile_is_open be then Some (Returned si (- 1))
                    else
                      case search_blocks dlg regEx byte_hit (SEARCHBLOCKSIZE div sizeof_CharT) count st0 of
                        None \<Rightarrow> None
                      | Some (st, thrown) \<Rightarrow>
                          if thrown then Some (Thrown (sInfo st))
                          else
                            let si1 = (if nFound st > 0 \<and> encoding (sInfo st) \<noteq> Binary
                                          \<and> \<not> m_bNotSearch dlg
                                       then line_loop be sizeof_CharT 0 (sInfo st)
                                       else sInfo st)
                            in Some (Returned si1 (nFound st)))"

section \<open>One file: \<^verbatim>\<open>SearchFile\<close>\<close>

text \<open>
  What \<^verbatim>\<open>SearchFile\<close> gets from the system for one file: the encoding that \<^verbatim>\<open>Load\<close> detected
  and its result, the loaded text, and for every call of the byte matcher (character
  size, assumed encoding, misaligned or not) what that call meets.
\<close>

record file_env =
  fe_type :: UnicodeType
  fe_bLoadResult :: bool
  fe_text :: text_env
  fe_bytes :: "nat \<Rightarrow> UnicodeType \<Rightarrow> bool \<Rightarrow> byte_env"

text \<open>
  The first \<^verbatim>\<open>for (auto assumption : encodingTries)\<close> loop, with \<^verbatim>\<open>SearchByFilePath<char>\<close>.
  \<^verbatim>\<open>catch (...)\<close> swallows an exception and leaves \<^verbatim>\<open>nCount\<close> as it was.
\<close>

fun try_char ::
  "search_dlg \<Rightarrow> file_env \<Rightarrow> match_flag set \<Rightarrow> UnicodeType list \<Rightarrow> CSearchInfo \<Rightarrow> int
     \<Rightarrow> (CSearchInfo \<times> int) option" where
  "try_char dlg fe matchFlags [] si nCount = Some (si, nCount)"
| "try_char dlg fe matchFlags (assumption # rest) si nCount =
     (let si0 = si\<lparr>encoding := assumption\<rparr>
      in case SearchByFilePath dlg (fe_bytes fe 1 assumption False) 1 matchFlags False si0 of
           None \<Rightarrow> None
         | Some (Returned si1 n) \<Rightarrow>
             if n > 0 then Some (si1, n) else try_char dlg fe matchFlags rest si1 n
         | Some (Thrown si1) \<Rightarrow>
             if nCount > 0 then Some (si1, nCount) else try_char dlg fe matchFlags rest si1 nCount)"

text \<open>
  The second loop, with \<^verbatim>\<open>SearchByFilePath<wchar_t>\<close>: the aligned pass and, for a binary
  file, the misaligned pass, each added to \<^verbatim>\<open>nCount\<close>.
\<close>

fun try_wchar ::
  "search_dlg \<Rightarrow> file_env \<Rightarrow> match_flag set \<Rightarrow> UnicodeType \<Rightarrow> UnicodeType list \<Rightarrow> CSearchInfo \<Rightarrow> int
     \<Rightarrow> (CSearchInfo \<times> int) option" where
  "try_wchar dlg fe matchFlags type [] si nCount = Some (si, nCount)"
| "try_wchar dlg fe matchFlags type (assumption # rest) si nCount =
     (let si0 = si\<lparr>encoding := assumption\<rparr>;
          tried =
            (case SearchByFilePath dlg (fe_bytes fe 2 assumption False) 2 matchFlags False si0 of
               None \<Rightarrow> None
             | Some (Thrown si1) \<Rightarrow> Some (si1, nCount)
             | Some (Returned si1 n1) \<Rightarrow>
                 if type = Binary
                 then (case SearchByFilePath dlg (fe_bytes fe 2 assumption True) 2 matchFlags True si1 of
                         None \<Rightarrow> None
                       | Some (Thrown si2) \<Rightarrow> Some (si2, nCount + n1)
                       | Some (Returned si2 n2) \<Rightarrow> Some (si2, nCount + n1 + n2))
                 else Some (si1, nCount + n1))
      in case tried of
           None \<Rightarrow> None
         | Some (si3, nCount3) \<Rightarrow>
             if nCount3 > 0 then Some (si3, nCount3)
             else try_wchar dlg fe matchFlags type rest si3 nCount3)"

text \<open>
  \<^verbatim>\<open>CSearchDlg::SearchFile\<close>: the messages it sends for the file. With \<^verbatim>\<open>m_bForceBinary\<close> the
  file is not loaded. The search and replace expressions are prepared here and handed to
  the matchers, where they only reach the regex constructor and the formatter.
\<close>

definition SearchFile :: "search_dlg \<Rightarrow> file_env \<Rightarrow> CSearchInfo \<Rightarrow> event list option" where
  "SearchFile dlg fe si0 =
     (let type = (if m_bForceBinary dlg then Binary else fe_type fe);
          bLoadResult = (if m_bForceBinary dlg then False else fe_bLoadResult fe);
          si = si0\<lparr>encoding := type\<rparr>;
          nCount = - 1
      in if m_cancelled dlg then Some (SendResult dlg si nCount)
         else
           let matchFlags = (if m_bDotMatchesNewline dlg then {format_all}
                             else {format_all, match_not_dot_newline})
           in if type = AutoType
              then Some (SendResult dlg (si\<lparr>readError := True\<rparr>) nCount)
              else if bLoadResult \<and> (type \<noteq> Binary \<or> m_bIncludeBinary dlg)
              then (case SearchOnTextFile dlg (fe_text fe) matchFlags si of
                      None \<Rightarrow> None
                    | Some (Returned si1 n) \<Rightarrow> Some (SendResult dlg si1 n)
                    | Some (Thrown si1) \<Rightarrow>
                        Some (SendResult dlg (si1\<lparr>exception := te_what (fe_text fe)\<rparr>) 1))
              else if type \<noteq> Binary \<or> m_bIncludeBinary dlg \<or> m_bForceBinary dlg
              then
                (let first =
                       (if \<not> m_bUseRegex dlg \<or> type = Binary
                        then try_char dlg fe matchFlags
                               (if type = Binary
                                then (if m_bUseRegex dlg then [Ansi, UTF8]
                                      else [Ansi, UTF8, Unicode_Le, Unicode_Be])
                                else [type])
                               si nCount
                        else Some (si, nCount))
                 in case first of
                      None \<Rightarrow> None
                    | Some (si1, nCount1) \<Rightarrow>
                        if m_bUseRegex dlg \<and> nCount1 \<le> 0
                           \<and> (type = Unicode_Le \<or> type = Unicode_Be \<or> type = Binary)
                        then (case try_wchar dlg fe matchFlags type
                                     (if type = Binary then [Unicode_Le, Unicode_Be] else [type])
                                     si1 nCount1 of
                                None \<Rightarrow> None
                              | Some (si2, nCount2) \<Rightarrow> Some (SendResult dlg si2 nCount2))
                        else Some (SendResult dlg si1 nCount1))
              else Some (SendResult dlg si nCount))"

text \<open>
  What \<^verbatim>\<open>SearchThread\<close> does with one entry of the directory walk, after the filters have
  set \<^verbatim>\<open>bSearch\<close>: in counting mode (empty search text) it sends the found message and then
  the progress message itself; otherwise a file is handed to \<^verbatim>\<open>SearchFile\<close> on the thread
  pool, whose messages are the messages for that file; an entry that did not pass gets
  the progress message alone. The result is the list of messages for the entry.
\<close>

definition SearchThread_entry ::
  "search_dlg \<Rightarrow> file_env \<Rightarrow> bool \<Rightarrow> bool \<Rightarrow> bool \<Rightarrow> CSearchInfo \<Rightarrow> event list option" where
  "SearchThread_entry dlg fe bSearch bCountingOnly bIsDirectory si =
     (if bSearch
      then (if bCountingOnly then Some [SEARCH_FOUND True si, SEARCH_PROGRESS True]
            else if \<not> bIsDirectory then SearchFile dlg fe si
            else Some [])
      else if \<not> bIsDirectory \<or> (bCountingOnly \<and> m_patternRegex dlg = [])
      then Some [SEARCH_PROGRESS False]
      else Some [])"

section \<open>Terms of the specification\<close>

text \<open>
  The match flags that \<^verbatim>\<open>SearchFile\<close> hands to the matchers.
\<close>

definition search_matchFlags :: "search_dlg \<Rightarrow> match_flag set" where
  "search_matchFlags dlg =
     (if m_bDotMatchesNewline dlg then {format_all} else {format_all, match_not_dot_newline})"

text \<open>
  A found message is among the messages sent for a file.
\<close>

definition found_sent :: "event list \<Rightarrow> bool" where
  "found_sent evs = (\<exists>b s. SEARCH_FOUND b s \<in> set evs)"

text \<open>
  The blocks in which a buffer of \<open>count\<close> characters is searched: first the remainder
  \<open>count mod block\<close>, then \<open>count div block\<close> full blocks. A block has a hit when it is not
  empty and the search from its start to its end finds a match. The hits of a file, as far
  as the inverted search is concerned, are the blocks with a hit.
\<close>

definition scan_blocks :: "nat \<Rightarrow> nat \<Rightarrow> (nat \<times> nat) list" where
  "scan_blocks count block =
     (0, count mod block)
       # map (\<lambda>k. (count mod block + k * block, count mod block + (k + 1) * block))
             [0..<count div block]"

definition block_has_hit :: "regex \<Rightarrow> match_flag set \<Rightarrow> nat \<times> nat \<Rightarrow> bool" where
  "block_has_hit regEx flags b =
     (case b of (s, e) \<Rightarrow>
        s < e \<and> (case regEx flags s e of Match first second \<Rightarrow> True | _ \<Rightarrow> False))"

definition hit_blocks :: "regex \<Rightarrow> match_flag set \<Rightarrow> nat \<Rightarrow> nat \<Rightarrow> (nat \<times> nat) list" where
  "hit_blocks regEx flags count block = filter (block_has_hit regEx flags) (scan_blocks count block)"

section \<open>Files and settings for evaluation\<close>

text \<open>
  Three regexes as they behave on a particular content: a pattern that matches every
  single character (\<^verbatim>\<open>x\<close> on a file of \<^verbatim>\<open>x\<close>s), a pattern whose only hit is the character at
  position \<open>k\<close>, and a pattern that matches the empty string everywhere (such as a
  lookahead that always succeeds).
\<close>

definition every_char :: regex where
  "every_char flags s e = (if s < e then Match s (s + 1) else NoMatch)"

definition hit_at :: "nat \<Rightarrow> regex" where
  "hit_at k flags s e = (if s \<le> k \<and> k < e then Match k (k + 1) else NoMatch)"

definition empty_hits :: regex where
  "empty_hits flags s e = (if s \<le> e then Match s s else NoMatch)"

text \<open>
  A loaded text of \<open>n\<close> characters and a mapped file of \<open>n\<close> bytes, both without a line
  break: every position is on line 1, and its column is the position plus one.
\<close>

definition plain_text :: "nat \<Rightarrow> regex option \<Rightarrow> text_env" where
  "plain_text n r =
     \<lparr> te_count = n, te_wRegEx = r,
       te_LineFromPosition = (\<lambda>p. 1), te_ColumnFromPosition = (\<lambda>p l. p + 1),
       te_GetLineString = (\<lambda>l. []), te_format = (\<lambda>first second. []), te_what = ''error'',
       te_Save = True, te_AdoptTempResultFile = 1 \<rparr>"

definition plain_bytes :: "nat \<Rightarrow> regex option \<Rightarrow> byte_env" where
  "plain_bytes n r =
     \<lparr> be_is_open = True, be_inSize = n, be_regEx = r, be_outFile_is_open = True,
       be_LineFromPosition = (\<lambda>p. 1), be_ColumnFromPosition = (\<lambda>p l. p + 1),
       be_PositionsFromLine = (\<lambda>l. (0, n)), be_line = (\<lambda>lineStart lineLength. replicate lineLength (CHR ''x'')) \<rparr>"

text \<open>
  Search settings with the three switches that the evaluations vary: regex or literal
  search, the inverted search, and the forced binary mode. No replace, not cancelled.
\<close>

definition search_settings :: "bool \<Rightarrow> bool \<Rightarrow> bool \<Rightarrow> search_dlg" where
  "search_settings regex notSearch forceBinary =
     \<lparr> m_patterns = [], m_patternRegex = [], m_bUseRegexForPaths = False,
       m_bUseRegex = regex, m_bCaseSensitive = False, m_bDotMatchesNewline = False,
       m_bWholeWords = False, m_bNotSearch = notSearch, m_bCaptureSearch = False,
       m_bReplace = False, m_bForceBinary = forceBinary, m_bIncludeBinary = False,
       m_cancelled = False \<rparr>"

text \<open>
  A file that \<^verbatim>\<open>Load\<close> could not read: the detected type stays \<^verbatim>\<open>AutoType\<close>.
\<close>

definition unreadable_file :: file_env where
  "unreadable_file =
     \<lparr> fe_type = AutoType, fe_bLoadResult = False, fe_text = plain_text 0 None,
       fe_bytes = (\<lambda>sizeof_CharT assumption misaligned. plain_bytes 0 None) \<rparr>"

text \<open>
  The six bytes \<^verbatim>\<open>3A 26 00 3A 26 00\<close>, searched for the regex \<^verbatim>\<open>\x{263A}\<close>. As \<^verbatim>\<open>char\<close> regex
  the expression does not compile (the value does not fit a \<^verbatim>\<open>char\<close>). As UTF-16LE the
  aligned pass reads the characters \<^verbatim>\<open>263A 3A00 0026\<close> and has its hit at position 0; the
  misaligned pass starts at the second byte, reads \<^verbatim>\<open>0026 263A\<close> and has its hit at
  position 1.
\<close>

definition binary_file :: file_env where
  "binary_file =
     \<lparr> fe_type = Binary, fe_bLoadResult = False, fe_text = plain_text 0 None,
       fe_bytes = (\<lambda>sizeof_CharT assumption misaligned.
          if sizeof_CharT = 1 then plain_bytes 6 None
          else if assumption = Unicode_Le
          then plain_bytes 6 (Some (hit_at (if misaligned then 1 else 0)))
          else plain_bytes 6 (Some (\<lambda>flags s e. NoMatch))) \<rparr>"


text \<open>
  A pattern without a hit in the file at hand.
\<close>

definition no_hits :: regex where
  "no_hits flags s e = NoMatch"

text \<open>
  A text file of \<open>n\<close> characters in the ANSI encoding, once loaded as text and once too big
  to be loaded, so that it is searched through the mapped file.
\<close>

definition loaded_text_file :: "nat \<Rightarrow> regex \<Rightarrow> file_env" where
  "loaded_text_file n r =
     \<lparr> fe_type = Ansi, fe_bLoadResult = True, fe_text = plain_text n (Some r),
       fe_bytes = (\<lambda>sizeof_CharT assumption misaligned. plain_bytes n (Some r)) \<rparr>"

definition mapped_text_file :: "nat \<Rightarrow> regex \<Rightarrow> file_env" where
  "mapped_text_file n r =
     \<lparr> fe_type = Ansi, fe_bLoadResult = False, fe_text = plain_text 0 None,
       fe_bytes = (\<lambda>sizeof_CharT assumption misaligned. plain_bytes n (Some r)) \<rparr>"


section \<open>Properties of the name filter\<close>

lemma wcsrchr_from_append:
  "wcsrchr_from (xs @ ys) ch i found = wcsrchr_from ys ch (i + length xs) (wcsrchr_from xs ch i found)"
  by (induction xs arbitrary: i found) simp_all

lemma wcsrchr_from_absent:
  "ch \<notin> set xs \<Longrightarrow> wcsrchr_from xs ch i found = found"
  by (induction xs arbitrary: i) auto

lemma pName_basename:
  "(case wcsrchr p bslash of None \<Rightarrow> p | Some i \<Rightarrow> drop (Suc i) p) = basename p"
proof (cases "bslash \<in> set p")
  case False
  then have tw: "takeWhile (\<lambda>c. c \<noteq> bslash) (rev p) = rev p"
    by (auto simp: takeWhile_eq_all_conv)
  have none: "wcsrchr p bslash = None"
    using False by (simp add: wcsrchr_def wcsrchr_from_absent)
  show ?thesis
    unfolding basename_def tw none by simp
next
  case True
  then have "bslash \<in> set (rev p)" by simp
  then obtain ys zs where split: "rev p = ys @ bslash # zs" and ys: "bslash \<notin> set ys"
    by (meson split_list_first)
  have p: "p = rev zs @ bslash # rev ys"
    using split by (metis rev_append rev.simps(2) rev_rev_ident append.assoc append_Cons append_Nil)
  have tw: "takeWhile (\<lambda>c. c \<noteq> bslash) (rev p) = ys"
    unfolding split using ys by (subst takeWhile_append2) auto
  have "wcsrchr p bslash = Some (length zs)"
    using ys by (simp add: p wcsrchr_def wcsrchr_from_append wcsrchr_from_absent)
  then show ?thesis
    by (simp add: basename_def tw) (simp add: p)
qed

lemma MatchPath_loop_foldl:
  "MatchPath_loop ps name acc = foldl (glob_step name) acc ps"
proof (induction ps arbitrary: acc)
  case Nil
  show ?case by simp
next
  case (Cons p ps)
  have "(p \<noteq> [] \<and> hd p = CHR ''-'') = is_exclusion p"
    by (cases p) (simp_all add: is_exclusion_def)
  then show ?case
    by (simp add: Cons.IH glob_step_def)
qed

text \<open>
  C10. With an empty pattern list the name filter accepts every path, whatever the
  other settings are.
\<close>

theorem MatchPath_no_patterns:
  "MatchPath grepWinMatchI (dlg\<lparr>m_patterns := []\<rparr>) pathBuf = True"
  by (simp add: MatchPath_def)

text \<open>
  C7. In glob mode (a pattern list is present and the regex option for names is off) the
  filter result is the fold of the specification over the pattern list, evaluated on the
  lower-cased basename of the path.
\<close>

theorem MatchPath_glob_fold:
  assumes "m_patterns dlg \<noteq> []" and "\<not> m_bUseRegexForPaths dlg"
  shows "MatchPath grepWinMatchI dlg pathBuf =
           glob_filter_spec (m_patterns dlg) (map towlower (basename pathBuf))"
proof -
  have "(hd (m_patterns dlg) \<noteq> [] \<and> hd (hd (m_patterns dlg)) = CHR ''-'')
          = is_exclusion (hd (m_patterns dlg))"
    by (cases "hd (m_patterns dlg)") (simp_all add: is_exclusion_def)
  with assms show ?thesis
    by (simp add: MatchPath_def Let_def pName_basename MatchPath_loop_foldl glob_filter_spec_def)
qed

text \<open>The theorem at a concrete path, with an exclusion as first pattern.\<close>

theorem MatchPath_glob_fold_witness:
  "m_patterns glob_dlg \<noteq> [] \<and> \<not> m_bUseRegexForPaths glob_dlg
   \<and> MatchPath (\<lambda>r t. False) glob_dlg (''C:'' @ [bslash] @ ''Notes.TXT'') =
       glob_filter_spec (m_patterns glob_dlg) (map towlower (basename (''C:'' @ [bslash] @ ''Notes.TXT'')))
   \<and> glob_filter_spec (m_patterns glob_dlg) (map towlower (basename (''C:'' @ [bslash] @ ''Notes.TXT'')))"
proof -
  have h1: "m_patterns glob_dlg \<noteq> []" and h2: "\<not> m_bUseRegexForPaths glob_dlg"
    by (simp_all add: glob_dlg_def)
  have v: "glob_filter_spec (m_patterns glob_dlg) (map towlower (basename (''C:'' @ [bslash] @ ''Notes.TXT'')))"
    by (simp add: glob_dlg_def glob_filter_spec_def glob_step_def is_exclusion_def basename_def towlower_def)
  show ?thesis
    using h1 h2 v MatchPath_glob_fold [OF h1 h2, of "\<lambda>r t. False" "''C:'' @ [bslash] @ ''Notes.TXT''"]
    by simp
qed

lemma wcscspn_bar_seg:
  "CHR ''|'' \<notin> set seg \<Longrightarrow> wcscspn_bar (seg @ CHR ''|'' # rest) = length seg"
  unfolding wcscspn_bar_def by (subst takeWhile_append2) auto

lemma wcscspn_bar_all:
  "CHR ''|'' \<notin> set seg \<Longrightarrow> wcscspn_bar seg = length seg"
  unfolding wcscspn_bar_def by (induction seg) auto

lemma split_patterns_segment:
  assumes "CHR ''|'' \<notin> set seg"
  shows "split_patterns (seg @ CHR ''|'' # rest) acc =
           (let acc1 = (if seg \<noteq> [] then push_pattern seg acc else acc)
            in if rest \<noteq> [] then split_patterns rest acc1 else acc1)"
  by (subst split_patterns.simps) (simp add: wcscspn_bar_seg [OF assms] Let_def)

lemma split_patterns_last:
  assumes "CHR ''|'' \<notin> set seg"
  shows "split_patterns seg acc = (if seg \<noteq> [] then push_pattern seg acc else acc)"
  by (subst split_patterns.simps) (simp add: wcscspn_bar_all [OF assms] Let_def)

lemma push_pattern_extends: "\<exists>ys. push_pattern s acc = acc @ ys"
  by (simp add: push_pattern_def Let_def)

lemma split_patterns_extends: "\<exists>ys. split_patterns buf acc = acc @ ys"
proof (induction buf acc rule: split_patterns.induct)
  case (1 pBuf patterns)
  define pos where "pos = wcscspn_bar pBuf"
  define patterns1 where
    "patterns1 = (if take pos pBuf \<noteq> [] then push_pattern (take pos pBuf) patterns else patterns)"
  have "\<exists>ys1. patterns1 = patterns @ ys1"
    unfolding patterns1_def by (auto simp: push_pattern_extends)
  then obtain ys1 where ys1: "patterns1 = patterns @ ys1" ..
  have unfold: "split_patterns pBuf patterns =
                  (if drop (pos + 1) pBuf \<noteq> [] \<and> pos < length pBuf
                   then split_patterns (drop (pos + 1) pBuf) patterns1 else patterns1)"
    unfolding pos_def patterns1_def by (subst split_patterns.simps) (simp only: Let_def)
  show ?case
  proof (cases "drop (pos + 1) pBuf \<noteq> [] \<and> pos < length pBuf")
    case True
    then obtain ys where "split_patterns (drop (pos + 1) pBuf) patterns1 = patterns1 @ ys"
      using "1.IH" [of pos "take pos pBuf" patterns1 "drop (pos + 1) pBuf"]
      by (auto simp: pos_def patterns1_def)
    with True show ?thesis
      unfolding unfold by (simp add: ys1)
  next
    case False
    then show ?thesis
      unfolding unfold by (auto simp: ys1)
  qed
qed

lemma first_segment:
  assumes "CHR ''|'' \<in> set pre"
  obtains seg rest where "pre = seg @ CHR ''|'' # rest" and "CHR ''|'' \<notin> set seg"
  using assms by (meson split_list_first)

lemma split_patterns_skip:
  assumes "pre = [] \<or> last pre = CHR ''|''"
  shows "\<exists>acc1. split_patterns (pre @ buf) acc = split_patterns buf acc1"
  using assms
proof (induction "length pre" arbitrary: pre acc rule: less_induct)
  case less
  show ?case
  proof (cases "pre = []")
    case True
    then show ?thesis by auto
  next
    case False
    with less.prems have "last pre = CHR ''|''" by simp
    with False have "CHR ''|'' \<in> set pre" by (metis last_in_set)
    then obtain seg rest where pre: "pre = seg @ CHR ''|'' # rest" and seg: "CHR ''|'' \<notin> set seg"
      by (rule first_segment)
    define acc1 where "acc1 = (if seg \<noteq> [] then push_pattern seg acc else acc)"
    have rest: "rest = [] \<or> last rest = CHR ''|''"
      using \<open>last pre = CHR ''|''\<close> by (auto simp: pre split: if_splits)
    have len: "length rest < length pre" by (simp add: pre)
    have step: "split_patterns (pre @ buf) acc =
                  (if rest @ buf \<noteq> [] then split_patterns (rest @ buf) acc1 else acc1)"
      using split_patterns_segment [OF seg, of "rest @ buf" acc]
      by (simp add: pre acc1_def Let_def)
    show ?thesis
    proof (cases "rest @ buf = []")
      case True
      then have "split_patterns (pre @ buf) acc = split_patterns buf acc1"
        using step by (simp add: split_patterns_last)
      then show ?thesis by blast
    next
      case False
      then show ?thesis
        using less.hyps [OF len rest, of acc1] step by auto
    qed
  qed
qed

lemma towlower_dot [simp]: "towlower (CHR ''.'') = CHR ''.''"
  by (simp add: towlower_def)

lemma towlower_star [simp]: "towlower (CHR ''*'') = CHR ''*''"
  by (simp add: towlower_def)

lemma push_pattern_stem:
  assumes "stem \<noteq> []"
  shows "push_pattern (stem @ ''.*'') acc = acc @ [map towlower stem @ ''.*'', map towlower stem]"
  using assms by (cases stem) (simp_all add: push_pattern_def Let_def nth_append)

lemma wcswildcmp_star_empty: "wcswildcmp ws cs \<Longrightarrow> wcswildcmp (CHR ''*'' # ws) cs"
  by (cases cs) simp_all

lemma wcswildcmp_refl: "wcswildcmp p p"
  by (induction p) (simp_all add: wcswildcmp_star_empty)

lemma towlower_minus: "towlower c = CHR ''-'' \<Longrightarrow> c = CHR ''-''"
  by (simp add: towlower_def split: option.splits if_splits)


lemma SaveSettings_patterns_stem:
  assumes stem: "stem \<noteq> []" and bar: "CHR ''|'' \<notin> set stem"
    and pre: "pre = [] \<or> last pre = CHR ''|''"
    and post: "post = [] \<or> hd post = CHR ''|''"
  shows "\<exists>xs ys. SaveSettings_patterns (pre @ stem @ ''.*'' @ post) =
           xs @ [map towlower stem @ ''.*'', map towlower stem] @ ys"
proof -
  let ?s = "stem @ ''.*''"
  let ?new = "[map towlower stem @ ''.*'', map towlower stem]"
  have seg: "CHR ''|'' \<notin> set ?s" using bar by simp
  obtain acc1 where skip: "split_patterns (pre @ ?s @ post) [] = split_patterns (?s @ post) acc1"
    using split_patterns_skip [OF pre, of "?s @ post" "[]"] by auto
  have pushed: "push_pattern ?s acc1 = acc1 @ ?new"
    by (rule push_pattern_stem [OF stem])
  have "\<exists>ys. split_patterns (?s @ post) acc1 = acc1 @ ?new @ ys"
  proof (cases post)
    case Nil
    then show ?thesis
      using split_patterns_last [OF seg, of acc1] pushed by simp
  next
    case (Cons c rest)
    with post have c: "c = CHR ''|''" by simp
    show ?thesis
    proof (cases "rest = []")
      case True
      then show ?thesis
        using split_patterns_segment [OF seg, of "[]" acc1] pushed by (simp add: Cons c)
    next
      case False
      obtain ys where "split_patterns rest (acc1 @ ?new) = (acc1 @ ?new) @ ys"
        using split_patterns_extends by blast
      with False show ?thesis
        using split_patterns_segment [OF seg, of rest acc1] pushed by (simp add: Cons c)
    qed
  qed
  with skip show ?thesis
    unfolding SaveSettings_patterns_def by (metis append.assoc)
qed

lemma MatchPath_stem:
  assumes stem: "stem \<noteq> []" and bar: "CHR ''|'' \<notin> set stem"
    and pos: "hd stem \<noteq> CHR ''-''" and glob: "\<not> m_bUseRegexForPaths dlg"
    and pats: "m_patterns dlg = SaveSettings_patterns (stem @ ''.*'')"
    and name: "map towlower (basename pathBuf) = map towlower stem"
  shows "MatchPath grepWinMatchI dlg pathBuf"
proof -
  have seg: "CHR ''|'' \<notin> set (stem @ ''.*'')" using bar by simp
  have pats': "m_patterns dlg = [map towlower stem @ ''.*'', map towlower stem]"
    using split_patterns_last [OF seg, of "[]"] push_pattern_stem [OF stem, of "[]"]
    by (simp add: pats SaveSettings_patterns_def)
  have "hd (map towlower stem) \<noteq> CHR ''-''"
    using stem pos towlower_minus by (cases stem) auto
  then have excl: "\<not> is_exclusion (map towlower stem)"
    using stem by (cases stem) (simp_all add: is_exclusion_def)
  show ?thesis
    using glob excl
    by (simp add: MatchPath_def Let_def pName_basename MatchPath_loop_foldl pats' name
        glob_step_def wcswildcmp_refl)
qed

text \<open>
  C9. A pattern \<open>stem @ ''.*''\<close> with a non-empty stem (that is, a pattern of more than two
  characters ending in \<^verbatim>\<open>.*\<close>) that stands between separators in the pattern field puts
  two entries into the pattern list: itself and, right after it, its stem. With such a
  pattern alone in the field, and the stem not an exclusion, the name filter accepts every
  path whose basename is the stem, in any letter case.
\<close>

theorem stem_pattern_added:
  assumes "stem \<noteq> []" and "CHR ''|'' \<notin> set stem"
    and "pre = [] \<or> last pre = CHR ''|''"
    and "post = [] \<or> hd post = CHR ''|''"
  shows "(\<exists>xs ys. SaveSettings_patterns (pre @ stem @ ''.*'' @ post) =
            xs @ [map towlower stem @ ''.*'', map towlower stem] @ ys)
       \<and> (hd stem \<noteq> CHR ''-'' \<and> \<not> m_bUseRegexForPaths dlg
            \<and> m_patterns dlg = SaveSettings_patterns (stem @ ''.*'')
            \<and> map towlower (basename pathBuf) = map towlower stem
          \<longrightarrow> MatchPath grepWinMatchI dlg pathBuf)"
  using SaveSettings_patterns_stem [OF assms] MatchPath_stem [OF assms(1,2)] by blast

text \<open>The theorem at the pattern field \<^verbatim>\<open>*.txt|name.*|-x.*\<close> and a file \<^verbatim>\<open>NAME\<close>.\<close>

theorem stem_pattern_added_witness:
  "(''name'' \<noteq> [] \<and> CHR ''|'' \<notin> set ''name''
      \<and> (''*.txt|'' = [] \<or> last ''*.txt|'' = CHR ''|'')
      \<and> (''|-x.*'' = [] \<or> hd ''|-x.*'' = CHR ''|'')
      \<and> hd ''name'' \<noteq> CHR ''-'' \<and> \<not> m_bUseRegexForPaths name_dlg
      \<and> m_patterns name_dlg = SaveSettings_patterns (''name'' @ ''.*'')
      \<and> map towlower (basename (''C:'' @ [bslash] @ ''dir'' @ [bslash] @ ''NAME'')) = map towlower ''name'')
   \<and> (\<exists>xs ys. SaveSettings_patterns (''*.txt|'' @ ''name'' @ ''.*'' @ ''|-x.*'') =
            xs @ [map towlower ''name'' @ ''.*'', map towlower ''name''] @ ys)
   \<and> MatchPath (\<lambda>r t. False) name_dlg (''C:'' @ [bslash] @ ''dir'' @ [bslash] @ ''NAME'')"
proof -
  have h1: "''name'' \<noteq> []" and h2: "CHR ''|'' \<notin> set ''name''"
    and h3: "''*.txt|'' = [] \<or> last ''*.txt|'' = CHR ''|''"
    and h4: "''|-x.*'' = [] \<or> hd ''|-x.*'' = CHR ''|''"
    by simp_all
  have h5: "hd ''name'' \<noteq> CHR ''-'' \<and> \<not> m_bUseRegexForPaths name_dlg
      \<and> m_patterns name_dlg = SaveSettings_patterns (''name'' @ ''.*'')
      \<and> map towlower (basename (''C:'' @ [bslash] @ ''dir'' @ [bslash] @ ''NAME'')) = map towlower ''name''"
    by (simp add: name_dlg_def basename_def towlower_def)
  show ?thesis
    using h1 h2 h3 h4 h5
      stem_pattern_added [OF h1 h2 h3 h4, of name_dlg
        "''C:'' @ [bslash] @ ''dir'' @ [bslash] @ ''NAME''" "\<lambda>r t. False"]
    by blast
qed

section \<open>Properties of the literal search text\<close>

lemma SearchReplace_Nil [simp]: "SearchReplace [] p r = []"
  by (simp add: SearchReplace.simps)

lemma SearchReplace_char:
  "SearchReplace s [c] r = concat (map (\<lambda>x. if x = c then r else [x]) s)"
proof (induction s)
  case Nil
  show ?case by simp
next
  case (Cons x xs)
  then show ?case
    by (subst SearchReplace.simps) simp
qed

lemma concat_map_concat_map:
  "concat (map f (concat (map g xs))) = concat (map (\<lambda>x. concat (map f (g x))) xs)"
  by (induction xs) simp_all

lemma range14: "[0..<14] = [0,1,2,3,4,5,6,7,8,9,10,11,12,13::nat]"
  by (simp add: upt_rec)

lemma escapeForRegexEx_char:
  "escapeForRegexEx s 0 = concat (map escape_char_spec s)"
proof -
  have "escapeForRegexEx s 0 =
          concat (map (\<lambda>c. fold (\<lambda>i s. SearchReplace s (specialChar ! i) (specialEscaped ! i))
                              [0..<14] [c]) s)"
    unfolding escapeForRegexEx_def Let_def
    by (simp add: range14 specialChar_def specialEscaped_def SearchReplace_char
        concat_map_concat_map del: upt_Suc)
  moreover have "fold (\<lambda>i s. SearchReplace s (specialChar ! i) (specialEscaped ! i)) [0..<14] [c]
                   = escape_char_spec c" for c
    by (simp add: range14 specialChar_def specialEscaped_def SearchReplace_char
        escape_char_spec_def regex_special_def del: upt_Suc)
  ultimately show ?thesis by simp
qed


lemma SearchReplace_crlf_Cons:
  "SearchReplace (x # xs) [CR, LF] r =
     (if x = CR \<and> xs \<noteq> [] \<and> hd xs = LF then r @ SearchReplace (tl xs) [CR, LF] r
      else x # SearchReplace xs [CR, LF] r)"
  by (subst SearchReplace.simps) (cases xs; auto)

lemma SearchReplace_crlf_append:
  "CR \<notin> set xs \<Longrightarrow> SearchReplace (xs @ ys) [CR, LF] r = xs @ SearchReplace ys [CR, LF] r"
  by (induction xs) (auto simp: SearchReplace_crlf_Cons)

lemma escape_char_spec_CR: "CR \<in> set (escape_char_spec c) \<longleftrightarrow> c = CR"
  by (auto simp: escape_char_spec_def regex_special_def)

lemma escape_char_spec_hd: "escape_char_spec c \<noteq> [] \<and> (hd (escape_char_spec c) = LF \<longleftrightarrow> c = LF)"
  by (auto simp: escape_char_spec_def regex_special_def)

lemma escape_char_spec_simple [simp]:
  "escape_char_spec CR = [CR]" "escape_char_spec LF = [LF]"
  by (simp_all add: escape_char_spec_def regex_special_def)

lemma SearchReplace_escape_char:
  assumes "c = CR \<Longrightarrow> ys = [] \<or> hd ys \<noteq> LF"
  shows "SearchReplace (escape_char_spec c @ ys) [CR, LF] r =
           escape_char_spec c @ SearchReplace ys [CR, LF] r"
proof (cases "c = CR")
  case True
  with assms show ?thesis
    by (auto simp: SearchReplace_crlf_Cons)
next
  case False
  then have "CR \<notin> set (escape_char_spec c)"
    by (simp add: escape_char_spec_CR)
  then show ?thesis
    by (rule SearchReplace_crlf_append)
qed

lemma SearchReplace_escaped:
  "SearchReplace (concat (map escape_char_spec s)) [CR, LF] crlf_alternation = literal_regex_spec s"
proof (induction s rule: literal_regex_spec.induct)
  case 1
  show ?case by simp
next
  case (2 c d rest)
  show ?case
  proof (cases "c = CR \<and> d = LF")
    case True
    then show ?thesis
      using 2 by (simp add: SearchReplace_crlf_Cons)
  next
    case False
    let ?ys = "concat (map escape_char_spec (d # rest))"
    have "c = CR \<Longrightarrow> ?ys = [] \<or> hd ?ys \<noteq> LF"
      using False escape_char_spec_hd [of d] by simp
    then have "SearchReplace (escape_char_spec c @ ?ys) [CR, LF] crlf_alternation =
                 escape_char_spec c @ SearchReplace ?ys [CR, LF] crlf_alternation"
      by (rule SearchReplace_escape_char)
    with False 2 show ?thesis by auto
  qed
next
  case (3 c)
  show ?case
    using SearchReplace_escape_char [of c "[]" crlf_alternation] by simp
qed

text \<open>
  C6. In literal mode the search text handed to the regex compiler is the one-pass
  translation of the literal: exactly the backslash and the thirteen characters
  \<^verbatim>\<open>^ $ . ? * + [ ] ( ) { } |\<close> are escaped, every CRLF pair is replaced by the alternation
  \<^verbatim>\<open>(?:\n|\r|\r\n)\<close>, and nothing else is changed.
\<close>

theorem literal_search_string_spec:
  "literal_search_string s = literal_regex_spec s"
  by (cases "s = []")
     (simp_all add: literal_search_string_def escapeForRegexEx_char SearchReplace_escaped)

section \<open>Properties of the backup file name\<close>

lemma wcsrchr_last:
  "bslash \<notin> set name \<Longrightarrow> wcsrchr (dir @ bslash # name) bslash = Some (length dir)"
  by (simp add: wcsrchr_def wcsrchr_from_append wcsrchr_from_absent)

lemma parent_and_name:
  assumes "bslash \<notin> set name"
  shows "GetParentDirectory (dir @ bslash # name) = dir"
    and "GetFileName (dir @ bslash # name) = name"
  using wcsrchr_last [OF assms, of dir]
  by (simp_all add: GetParentDirectory_def GetFileName_def)

lemma split_at_last_backslash:
  obtains dir name where "bslash # rel = dir @ bslash # name" and "bslash \<notin> set name"
proof -
  have "bslash \<in> set (rev (bslash # rel))" by simp
  then obtain ys zs where split: "rev (bslash # rel) = ys @ bslash # zs" and ys: "bslash \<notin> set ys"
    by (meson split_list_first)
  have "bslash # rel = rev zs @ bslash # rev ys"
    using split by (metis rev_append rev.simps(2) rev_rev_ident append.assoc append_Cons append_Nil)
  with ys show thesis
    by (intro that [of "rev zs" "rev ys"]) simp_all
qed

lemma backup_in_folder:
  "backupFile_name True root (root @ bslash # rel) =
     Some (root @ [bslash] @ ''grepWin_backup'' @ [bslash] @ rel)"
proof -
  obtain dir name where rel: "bslash # rel = dir @ bslash # name" and name: "bslash \<notin> set name"
    by (rule split_at_last_backslash)
  have a: "GetParentDirectory ((root @ [bslash] @ ''grepWin_backup'' @ dir) @ bslash # name)
             = root @ [bslash] @ ''grepWin_backup'' @ dir"
    by (rule parent_and_name [OF name])
  have b: "GetFileName ((root @ dir) @ bslash # name) = name"
    by (rule parent_and_name [OF name])
  have c: "root @ bslash # rel = (root @ dir) @ bslash # name"
    using rel by simp
  have d: "root @ [bslash] @ ''grepWin_backup'' @ [bslash] @ rel
             = (root @ [bslash] @ ''grepWin_backup'' @ dir) @ bslash # name"
    using rel by simp
  have "backupFile_name True root (root @ bslash # rel) =
          Some (GetParentDirectory (root @ [bslash] @ ''grepWin_backup'' @ [bslash] @ rel)
                @ [bslash] @ GetFileName (root @ bslash # rel))"
    by (simp add: backupFile_name_def Let_def)
  also have "\<dots> = Some ((root @ [bslash] @ ''grepWin_backup'' @ dir) @ [bslash] @ name)"
    unfolding c d a b ..
  also have "\<dots> = Some (root @ [bslash] @ ''grepWin_backup'' @ [bslash] @ rel)"
    using d by simp
  finally show ?thesis .
qed

text \<open>
  C4, as the code has it. With the backup folder enabled, the backup of the file
  \<open>root\<close>, backslash, \<open>rel\<close> is named \<open>root\<close>, backslash, \<^verbatim>\<open>grepWin_backup\<close>, backslash, \<open>rel\<close>: the file keeps its
  own name and gets no suffix. With the backup folder disabled, the backup is named as
  the file with \<^verbatim>\<open>.bak\<close> appended.
\<close>

theorem backupFile_name_paths:
  "backupFile_name True root (root @ bslash # rel) =
     Some (root @ [bslash] @ ''grepWin_backup'' @ [bslash] @ rel)
   \<and> backupFile_name False root path = Some (path @ ''.bak'')"
  by (simp add: backup_in_folder) (simp add: backupFile_name_def)

text \<open>
  C4 as stated fails: the backup of \<^verbatim>\<open>C:\work\sub\a.txt\<close> under the root \<^verbatim>\<open>C:\work\<close> goes to
  \<^verbatim>\<open>C:\work\grepWin_backup\sub\a.txt\<close>, not to a name ending in \<^verbatim>\<open>.bak\<close>.
\<close>

theorem backup_in_folder_counterexample:
  "backupFile_name True work_root work_file =
     Some (''C:'' @ [bslash] @ ''work'' @ [bslash] @ ''grepWin_backup'' @ [bslash] @ ''sub''
           @ [bslash] @ ''a.txt'')
   \<and> backupFile_name True work_root work_file \<noteq>
     Some (''C:'' @ [bslash] @ ''work'' @ [bslash] @ ''grepWin_backup'' @ [bslash] @ ''sub''
           @ [bslash] @ ''a.txt.bak'')"
  by (simp add: backupFile_name_def work_root_def work_file_def Let_def
      GetParentDirectory_def GetFileName_def wcsrchr_def)

section \<open>Properties of \<^verbatim>\<open>SendResult\<close> and \<^verbatim>\<open>SearchFile\<close>\<close>

lemma SendResult_shape:
  "\<exists>rest. SendResult dlg si n = SEARCH_PROGRESS (0 \<le> n) # rest
     \<and> (rest = [] \<or> rest = [SEARCH_FOUND True si])"
  by (simp add: SendResult_def Let_def)

lemma SearchFile_SendResult:
  assumes "SearchFile dlg fe si0 = Some evs"
  shows "\<exists>si n. evs = SendResult dlg si n"
proof -
  define type where "type = (if m_bForceBinary dlg then Binary else fe_type fe)"
  define bLoadResult where "bLoadResult = (if m_bForceBinary dlg then False else fe_bLoadResult fe)"
  define matchFlags where "matchFlags = (if m_bDotMatchesNewline dlg then {format_all}
                             else {format_all, match_not_dot_newline})"
  define tries1 where "tries1 = (if type = Binary
                                then (if m_bUseRegex dlg then [Ansi, UTF8]
                                      else [Ansi, UTF8, Unicode_Le, Unicode_Be])
                                else [type])"
  define tries2 where "tries2 = (if type = Binary then [Unicode_Le, Unicode_Be] else [type])"
  have "SearchFile dlg fe si0 =
     (let si = si0\<lparr>encoding := type\<rparr>; nCount = - 1
      in if m_cancelled dlg then Some (SendResult dlg si nCount)
         else
              if type = AutoType
              then Some (SendResult dlg (si\<lparr>readError := True\<rparr>) nCount)
              else if bLoadResult \<and> (type \<noteq> Binary \<or> m_bIncludeBinary dlg)
              then (case SearchOnTextFile dlg (fe_text fe) matchFlags si of
                      None \<Rightarrow> None
                    | Some (Returned si1 n) \<Rightarrow> Some (SendResult dlg si1 n)
                    | Some (Thrown si1) \<Rightarrow>
                        Some (SendResult dlg (si1\<lparr>exception := te_what (fe_text fe)\<rparr>) 1))
              else if type \<noteq> Binary \<or> m_bIncludeBinary dlg \<or> m_bForceBinary dlg
              then
                (let first =
                       (if \<not> m_bUseRegex dlg \<or> type = Binary
                        then try_char dlg fe matchFlags tries1 si nCount
                        else Some (si, nCount))
                 in case first of
                      None \<Rightarrow> None
                    | Some (si1, nCount1) \<Rightarrow>
                        if m_bUseRegex dlg \<and> nCount1 \<le> 0
                           \<and> (type = Unicode_Le \<or> type = Unicode_Be \<or> type = Binary)
                        then (case try_wchar dlg fe matchFlags type tries2 si1 nCount1 of
                                None \<Rightarrow> None
                              | Some (si2, nCount2) \<Rightarrow> Some (SendResult dlg si2 nCount2))
                        else Some (SendResult dlg si1 nCount1))
              else Some (SendResult dlg si nCount))"
    unfolding SearchFile_def type_def bLoadResult_def matchFlags_def tries1_def tries2_def Let_def ..
  with assms show ?thesis
    by (auto simp: Let_def split: if_splits option.splits outcome.splits prod.splits)
qed

text \<open>
  Whatever the file and the settings, a call of \<^verbatim>\<open>SearchFile\<close> that returns has sent the
  progress message first and after it at most one found message.
\<close>

lemma SearchFile_progress_first:
  assumes "SearchFile dlg fe si0 = Some evs"
  shows "\<exists>matched si. evs = [SEARCH_PROGRESS matched] \<or>
           evs = [SEARCH_PROGRESS matched, SEARCH_FOUND True si]"
proof -
  obtain si n where "evs = SendResult dlg si n"
    using SearchFile_SendResult [OF assms] by blast
  then show ?thesis
    using SendResult_shape [of dlg si n] by auto
qed

text \<open>
  C3 fails on every file that is reported by \<^verbatim>\<open>SearchFile\<close>. For a loaded text \<^verbatim>\<open>a.txt\<close> with one
  hit, in a normal search, the messages for the file are the progress message and then the
  found message: \<^verbatim>\<open>SendResult\<close> sends them in this order. C3 has the found message
  first, and so has the other path of \<^verbatim>\<open>SearchThread\<close>: in counting mode the same entry gets
  the found message and then the progress message.
\<close>

theorem progress_sent_before_found:
  "(\<exists>si. SearchThread_entry (search_settings False False False) (loaded_text_file 3 (hit_at 1))
            True False False (CSearchInfo_new ''a.txt'' 3)
          = Some [SEARCH_PROGRESS True, SEARCH_FOUND True si])
   \<and> SearchThread_entry (search_settings False False False) (loaded_text_file 3 (hit_at 1))
            True True False (CSearchInfo_new ''a.txt'' 3)
          = Some [SEARCH_FOUND True (CSearchInfo_new ''a.txt'' 3), SEARCH_PROGRESS True]"
  by (simp add: SearchThread_entry_def SearchFile_def SearchOnTextFile_def loaded_text_file_def
      plain_text_def search_settings_def SEARCHBLOCKSIZE_def search_blocks.simps search_while.simps
      hit_at_def Let_def SendResult_def CSearchInfo_new_def advance_past_hit_def)

text \<open>
  So the messages for that file are not the found message followed by the progress message.
\<close>

theorem progress_sent_before_found_witness:
  "SearchThread_entry (search_settings False False False) (loaded_text_file 3 (hit_at 1))
            True False False (CSearchInfo_new ''a.txt'' 3)
     \<noteq> Some [SEARCH_FOUND True (CSearchInfo_new ''a.txt'' 3), SEARCH_PROGRESS True]"
  using progress_sent_before_found by auto

section \<open>The inverted search\<close>

lemma found_sent_SendResult:
  "found_sent (SendResult dlg si n) = (if m_bNotSearch dlg then n \<le> 0 else n > 0)"
  by (auto simp: found_sent_def SendResult_def Let_def)

lemma search_while_not_search:
  assumes "m_bNotSearch dlg" and "\<not> m_cancelled dlg"
    and "regEx (mFlags st) (startIter st) (blockEnd st) \<noteq> SearchThrows"
  shows "search_while dlg regEx on_hit st =
           Some (st\<lparr>nFound := nFound st +
                    (if block_has_hit regEx (mFlags st) (startIter st, blockEnd st) then 1 else 0)\<rparr>,
                 False)"
  using assms
  by (subst search_while.simps)
     (auto simp: block_has_hit_def split: search_result.splits)

lemma search_blocks_not_search:
  assumes ns: "m_bNotSearch dlg" and nc: "\<not> m_cancelled dlg" and nt: "regex_no_throw regEx"
    and B: "0 < block"
  shows "startIter st \<le> blockEnd st \<Longrightarrow> end = blockEnd st + k * block \<Longrightarrow>
         \<exists>st'. search_blocks dlg regEx on_hit block end st = Some (st', False)
            \<and> sInfo st' = sInfo st
            \<and> nFound st' = nFound st + int (length (filter (block_has_hit regEx (mFlags st))
                 ((startIter st, blockEnd st)
                   # map (\<lambda>j. (blockEnd st + j * block, blockEnd st + (j + 1) * block)) [0..<k])))"
proof (induction k arbitrary: st)
  case 0
  define h where "h = (if block_has_hit regEx (mFlags st) (startIter st, blockEnd st) then 1 else 0 :: int)"
  have w: "search_while dlg regEx on_hit st = Some (st\<lparr>nFound := nFound st + h\<rparr>, False)"
    unfolding h_def using nt by (intro search_while_not_search [OF ns nc]) (simp add: regex_no_throw_def)
  show ?case
    using 0 by (subst search_blocks.simps) (auto simp: w h_def Let_def)
next
  case (Suc k)
  define h where "h = (if block_has_hit regEx (mFlags st) (startIter st, blockEnd st) then 1 else 0 :: int)"
  have w: "search_while dlg regEx on_hit st = Some (st\<lparr>nFound := nFound st + h\<rparr>, False)"
    unfolding h_def using nt by (intro search_while_not_search [OF ns nc]) (simp add: regex_no_throw_def)
  define st3 where "st3 = st\<lparr>nFound := nFound st + h, startIter := blockEnd st,
                             blockEnd := blockEnd st + block\<rparr>"
  have lt: "blockEnd st < end" using Suc.prems B by simp
  have unfold: "search_blocks dlg regEx on_hit block end st = search_blocks dlg regEx on_hit block end st3"
  proof (cases "startIter st < blockEnd st")
    case True
    then show ?thesis
      using lt nc by (subst search_blocks.simps) (simp add: w Let_def st3_def)
  next
    case False
    with Suc.prems have "startIter st = blockEnd st" by simp
    then have "st\<lparr>nFound := nFound st + h, blockEnd := blockEnd st + block\<rparr> = st3"
      by (simp add: st3_def)
    with False show ?thesis
      using lt nc by (subst search_blocks.simps) (simp add: w Let_def)
  qed
  have p1: "startIter st3 \<le> blockEnd st3" by (simp add: st3_def)
  have p2: "end = blockEnd st3 + k * block" using Suc.prems by (simp add: st3_def)
  from Suc.IH [OF p1 p2] obtain st' where
    r: "search_blocks dlg regEx on_hit block end st3 = Some (st', False)"
    and s: "sInfo st' = sInfo st3"
    and n: "nFound st' = nFound st3 + int (length (filter (block_has_hit regEx (mFlags st3))
                 ((startIter st3, blockEnd st3)
                   # map (\<lambda>j. (blockEnd st3 + j * block, blockEnd st3 + (j + 1) * block)) [0..<k])))"
    by blast
  have shift: "map (\<lambda>j. (blockEnd st + j * block, blockEnd st + (j + 1) * block)) [0..<Suc k]
                = (startIter st3, blockEnd st3)
                  # map (\<lambda>j. (blockEnd st3 + j * block, blockEnd st3 + (j + 1) * block)) [0..<k]"
    unfolding map_upt_Suc by (simp add: st3_def add.assoc add.commute add.left_commute)
  have "nFound st' = nFound st + int (length (filter (block_has_hit regEx (mFlags st))
                 ((startIter st, blockEnd st)
                   # map (\<lambda>j. (blockEnd st + j * block, blockEnd st + (j + 1) * block)) [0..<Suc k])))"
    unfolding shift using n by (simp add: st3_def h_def)
  with r s unfold show ?case
    by (auto simp: st3_def)
qed

lemma search_blocks_hit_blocks:
  assumes "m_bNotSearch dlg" and "\<not> m_cancelled dlg" and "regex_no_throw regEx" and "0 < block"
  shows "\<exists>st'. search_blocks dlg regEx on_hit block count
              \<lparr> startIter = 0, blockEnd = count mod block, nFound = 0, mFlags = flags, sInfo = si \<rparr>
            = Some (st', False)
          \<and> sInfo st' = si
          \<and> nFound st' = int (length (hit_blocks regEx flags count block))"
  using search_blocks_not_search [OF assms,
      of "\<lparr> startIter = 0, blockEnd = count mod block, nFound = 0, mFlags = flags, sInfo = si \<rparr>"
         count "count div block" on_hit]
  by (simp add: hit_blocks_def scan_blocks_def mult.commute)

lemma SearchOnTextFile_not_search:
  assumes "m_bNotSearch dlg" and "\<not> m_cancelled dlg" and "\<not> m_bReplace dlg"
    and "te_wRegEx te = Some regEx" and "regex_no_throw regEx"
  shows "SearchOnTextFile dlg te flags si =
           Some (Returned si (int (length (hit_blocks regEx flags (te_count te) (SEARCHBLOCKSIZE div 2)))))"
proof -
  have "0 < SEARCHBLOCKSIZE div 2" by (simp add: SEARCHBLOCKSIZE_def)
  from search_blocks_hit_blocks [OF assms(1,2,5) this, of "text_hit dlg te" "te_count te" flags si]
  obtain st' where "search_blocks dlg regEx (text_hit dlg te) (SEARCHBLOCKSIZE div 2) (te_count te)
              \<lparr> startIter = 0, blockEnd = te_count te mod (SEARCHBLOCKSIZE div 2), nFound = 0,
                mFlags = flags, sInfo = si \<rparr> = Some (st', False)"
    and "sInfo st' = si"
    and "nFound st' = int (length (hit_blocks regEx flags (te_count te) (SEARCHBLOCKSIZE div 2)))"
    by blast
  then show ?thesis
    using assms by (simp add: SearchOnTextFile_def Let_def)
qed

lemma SearchByFilePath_char_not_search:
  assumes "m_bNotSearch dlg" and "\<not> m_cancelled dlg" and "\<not> m_bReplace dlg"
    and "be_is_open be" and "be_regEx be = Some regEx" and "regex_no_throw regEx"
  shows "SearchByFilePath dlg be 1 flags False si =
           Some (Returned si (int (length (hit_blocks regEx flags (be_inSize be) SEARCHBLOCKSIZE))))"
proof (cases "be_inSize be = 0")
  case True
  then show ?thesis
    using assms by (simp add: SearchByFilePath_def Let_def hit_blocks_def scan_blocks_def block_has_hit_def)
next
  case False
  have "0 < SEARCHBLOCKSIZE" by (simp add: SEARCHBLOCKSIZE_def)
  from search_blocks_hit_blocks [OF assms(1,2,6) this, of byte_hit "be_inSize be" flags si]
  obtain st' where "search_blocks dlg regEx byte_hit SEARCHBLOCKSIZE (be_inSize be)
              \<lparr> startIter = 0, blockEnd = be_inSize be mod SEARCHBLOCKSIZE, nFound = 0,
                mFlags = flags, sInfo = si \<rparr> = Some (st', False)"
    and "sInfo st' = si"
    and "nFound st' = int (length (hit_blocks regEx flags (be_inSize be) SEARCHBLOCKSIZE))"
    by blast
  then show ?thesis
    using assms False by (simp add: SearchByFilePath_def Let_def)
qed

lemma SearchFile_text_not_search:
  assumes "m_bNotSearch dlg" and "\<not> m_bReplace dlg" and "\<not> m_cancelled dlg"
    and "\<not> m_bForceBinary dlg" and "fe_bLoadResult fe" and "fe_type fe \<noteq> AutoType"
    and "fe_type fe \<noteq> Binary \<or> m_bIncludeBinary dlg"
    and "te_wRegEx (fe_text fe) = Some regEx" and "regex_no_throw regEx"
  shows "SearchFile dlg fe si =
           Some (SendResult dlg (si\<lparr>encoding := fe_type fe\<rparr>)
                  (int (length (hit_blocks regEx (search_matchFlags dlg) (te_count (fe_text fe))
                                  (SEARCHBLOCKSIZE div 2)))))"
  using assms(3-7)
    SearchOnTextFile_not_search [OF assms(1,3,2,8,9), of "search_matchFlags dlg" "si\<lparr>encoding := fe_type fe\<rparr>"]
  by (simp add: SearchFile_def Let_def search_matchFlags_def)

lemma SearchFile_bytes_not_search:
  assumes "m_bNotSearch dlg" and "\<not> m_bReplace dlg" and "\<not> m_cancelled dlg"
    and "\<not> m_bForceBinary dlg" and "\<not> m_bUseRegex dlg" and "\<not> fe_bLoadResult fe"
    and "fe_type fe \<noteq> AutoType" and "fe_type fe \<noteq> Binary"
    and "be_is_open (fe_bytes fe 1 (fe_type fe) False)"
    and "be_regEx (fe_bytes fe 1 (fe_type fe) False) = Some regEx" and "regex_no_throw regEx"
  shows "SearchFile dlg fe si =
           Some (SendResult dlg (si\<lparr>encoding := fe_type fe\<rparr>)
                  (int (length (hit_blocks regEx (search_matchFlags dlg)
                                  (be_inSize (fe_bytes fe 1 (fe_type fe) False)) SEARCHBLOCKSIZE))))"
  using assms(3-8)
    SearchByFilePath_char_not_search [OF assms(1,3,2,9,10,11), of "search_matchFlags dlg" "si\<lparr>encoding := fe_type fe\<rparr>"]
  by (simp add: SearchFile_def Let_def search_matchFlags_def)

lemma SearchFile_not_scanned:
  assumes "m_bNotSearch dlg"
    and "m_cancelled dlg \<or> (\<not> m_bForceBinary dlg \<and> fe_type fe = AutoType)
         \<or> (\<not> m_bForceBinary dlg \<and> fe_type fe = Binary \<and> \<not> m_bIncludeBinary dlg)"
  shows "\<exists>evs. SearchFile dlg fe si = Some evs \<and> found_sent evs"
  using assms
  by (auto simp: SearchFile_def Let_def found_sent_SendResult)

lemma regex_no_throw_examples:
  "regex_no_throw (hit_at k)" "regex_no_throw no_hits" "regex_no_throw every_char"
  "regex_no_throw empty_hits"
  by (simp_all add: regex_no_throw_def hit_at_def no_hits_def every_char_def empty_hits_def)

text \<open>
  C2, as the code has it. In the inverted search (which the dialog never combines with
  replace):
  \<^item> a file that is loaded and scanned by the text matcher is sent as found exactly when
    no block of its text has a hit;
  \<^item> in a literal search, a file of a detected text encoding that is scanned through the
    mapped file is sent as found exactly when no block of the file has a hit;
  \<^item> a file that is not scanned, because the load was cancelled, the file could not be
    read, or it is a binary file and binary files are not included, is sent as found.
  In the first two cases the regex is one that compiles and does not throw. The passes
  with \<^verbatim>\<open>wchar_t\<close>, where the counts of several passes are added up, are not covered.
\<close>

theorem not_search_found_iff_no_hit:
  assumes "m_bNotSearch dlg" and "\<not> m_bReplace dlg"
  shows "(\<not> m_cancelled dlg \<and> \<not> m_bForceBinary dlg \<and> fe_bLoadResult fe \<and> fe_type fe \<noteq> AutoType
            \<and> (fe_type fe \<noteq> Binary \<or> m_bIncludeBinary dlg)
            \<and> te_wRegEx (fe_text fe) = Some regEx \<and> regex_no_throw regEx
          \<longrightarrow> (\<exists>evs. SearchFile dlg fe si = Some evs
                 \<and> (found_sent evs \<longleftrightarrow>
                      hit_blocks regEx (search_matchFlags dlg) (te_count (fe_text fe))
                        (SEARCHBLOCKSIZE div 2) = [])))
       \<and> (\<not> m_cancelled dlg \<and> \<not> m_bForceBinary dlg \<and> \<not> m_bUseRegex dlg \<and> \<not> fe_bLoadResult fe'
            \<and> fe_type fe' \<noteq> AutoType \<and> fe_type fe' \<noteq> Binary
            \<and> be_is_open (fe_bytes fe' 1 (fe_type fe') False)
            \<and> be_regEx (fe_bytes fe' 1 (fe_type fe') False) = Some regEx' \<and> regex_no_throw regEx'
          \<longrightarrow> (\<exists>evs. SearchFile dlg fe' si = Some evs
                 \<and> (found_sent evs \<longleftrightarrow>
                      hit_blocks regEx' (search_matchFlags dlg)
                        (be_inSize (fe_bytes fe' 1 (fe_type fe') False)) SEARCHBLOCKSIZE = [])))
       \<and> (m_cancelled dlg \<or> (\<not> m_bForceBinary dlg \<and> fe_type fe'' = AutoType)
            \<or> (\<not> m_bForceBinary dlg \<and> fe_type fe'' = Binary \<and> \<not> m_bIncludeBinary dlg)
          \<longrightarrow> (\<exists>evs. SearchFile dlg fe'' si = Some evs \<and> found_sent evs))"
proof (intro conjI impI)
  assume h: "\<not> m_cancelled dlg \<and> \<not> m_bForceBinary dlg \<and> fe_bLoadResult fe \<and> fe_type fe \<noteq> AutoType
            \<and> (fe_type fe \<noteq> Binary \<or> m_bIncludeBinary dlg)
            \<and> te_wRegEx (fe_text fe) = Some regEx \<and> regex_no_throw regEx"
  then have "SearchFile dlg fe si =
           Some (SendResult dlg (si\<lparr>encoding := fe_type fe\<rparr>)
                  (int (length (hit_blocks regEx (search_matchFlags dlg) (te_count (fe_text fe))
                                  (SEARCHBLOCKSIZE div 2)))))"
    by (intro SearchFile_text_not_search assms) simp_all
  then show "\<exists>evs. SearchFile dlg fe si = Some evs
                 \<and> (found_sent evs \<longleftrightarrow>
                      hit_blocks regEx (search_matchFlags dlg) (te_count (fe_text fe))
                        (SEARCHBLOCKSIZE div 2) = [])"
    using assms(1) by (simp add: found_sent_SendResult)
next
  assume h: "\<not> m_cancelled dlg \<and> \<not> m_bForceBinary dlg \<and> \<not> m_bUseRegex dlg \<and> \<not> fe_bLoadResult fe'
            \<and> fe_type fe' \<noteq> AutoType \<and> fe_type fe' \<noteq> Binary
            \<and> be_is_open (fe_bytes fe' 1 (fe_type fe') False)
            \<and> be_regEx (fe_bytes fe' 1 (fe_type fe') False) = Some regEx' \<and> regex_no_throw regEx'"
  then have "SearchFile dlg fe' si =
           Some (SendResult dlg (si\<lparr>encoding := fe_type fe'\<rparr>)
                  (int (length (hit_blocks regEx' (search_matchFlags dlg)
                                  (be_inSize (fe_bytes fe' 1 (fe_type fe') False)) SEARCHBLOCKSIZE))))"
    by (intro SearchFile_bytes_not_search assms) simp_all
  then show "\<exists>evs. SearchFile dlg fe' si = Some evs
                 \<and> (found_sent evs \<longleftrightarrow>
                      hit_blocks regEx' (search_matchFlags dlg)
                        (be_inSize (fe_bytes fe' 1 (fe_type fe') False)) SEARCHBLOCKSIZE = [])"
    using assms(1) by (simp add: found_sent_SendResult)
next
  assume "m_cancelled dlg \<or> (\<not> m_bForceBinary dlg \<and> fe_type fe'' = AutoType)
            \<or> (\<not> m_bForceBinary dlg \<and> fe_type fe'' = Binary \<and> \<not> m_bIncludeBinary dlg)"
  then show "\<exists>evs. SearchFile dlg fe'' si = Some evs \<and> found_sent evs"
    by (rule SearchFile_not_scanned [OF assms(1)])
qed

text \<open>
  The theorem in a literal inverted search: a loaded text of three characters with a hit
  (not sent as found), a mapped file of three bytes without a hit (sent as found), and a
  file that could not be read (sent as found).
\<close>

theorem not_search_found_iff_no_hit_witness:
  "(m_bNotSearch (search_settings False True False) \<and> \<not> m_bReplace (search_settings False True False)
      \<and> \<not> m_cancelled (search_settings False True False)
      \<and> \<not> m_bForceBinary (search_settings False True False)
      \<and> fe_bLoadResult (loaded_text_file 3 (hit_at 1))
      \<and> fe_type (loaded_text_file 3 (hit_at 1)) \<noteq> AutoType
      \<and> fe_type (loaded_text_file 3 (hit_at 1)) \<noteq> Binary
      \<and> te_wRegEx (fe_text (loaded_text_file 3 (hit_at 1))) = Some (hit_at 1)
      \<and> regex_no_throw (hit_at 1)
      \<and> \<not> m_bUseRegex (search_settings False True False)
      \<and> \<not> fe_bLoadResult (mapped_text_file 3 no_hits)
      \<and> fe_type (mapped_text_file 3 no_hits) \<noteq> AutoType
      \<and> fe_type (mapped_text_file 3 no_hits) \<noteq> Binary
      \<and> be_is_open (fe_bytes (mapped_text_file 3 no_hits) 1 (fe_type (mapped_text_file 3 no_hits)) False)
      \<and> be_regEx (fe_bytes (mapped_text_file 3 no_hits) 1 (fe_type (mapped_text_file 3 no_hits)) False)
            = Some no_hits
      \<and> regex_no_throw no_hits
      \<and> fe_type unreadable_file = AutoType)
   \<and> (\<exists>evs. SearchFile (search_settings False True False) (loaded_text_file 3 (hit_at 1))
                (CSearchInfo_new ''a.txt'' 3) = Some evs
          \<and> (found_sent evs \<longleftrightarrow>
               hit_blocks (hit_at 1) (search_matchFlags (search_settings False True False))
                 (te_count (fe_text (loaded_text_file 3 (hit_at 1)))) (SEARCHBLOCKSIZE div 2) = [])
          \<and> \<not> found_sent evs)
   \<and> (\<exists>evs. SearchFile (search_settings False True False) (mapped_text_file 3 no_hits)
                (CSearchInfo_new ''a.txt'' 3) = Some evs
          \<and> (found_sent evs \<longleftrightarrow>
               hit_blocks no_hits (search_matchFlags (search_settings False True False))
                 (be_inSize (fe_bytes (mapped_text_file 3 no_hits) 1
                    (fe_type (mapped_text_file 3 no_hits)) False)) SEARCHBLOCKSIZE = [])
          \<and> found_sent evs)
   \<and> (\<exists>evs. SearchFile (search_settings False True False) unreadable_file
                (CSearchInfo_new ''a.txt'' 3) = Some evs \<and> found_sent evs)"
proof -
  let ?d = "search_settings False True False"
  have h1: "m_bNotSearch ?d" and h2: "\<not> m_bReplace ?d"
    by (simp_all add: search_settings_def)
  have a: "\<not> m_cancelled ?d \<and> \<not> m_bForceBinary ?d
      \<and> fe_bLoadResult (loaded_text_file 3 (hit_at 1))
      \<and> fe_type (loaded_text_file 3 (hit_at 1)) \<noteq> AutoType
      \<and> (fe_type (loaded_text_file 3 (hit_at 1)) \<noteq> Binary \<or> m_bIncludeBinary ?d)
      \<and> te_wRegEx (fe_text (loaded_text_file 3 (hit_at 1))) = Some (hit_at 1)
      \<and> regex_no_throw (hit_at 1)"
    by (simp add: search_settings_def loaded_text_file_def plain_text_def regex_no_throw_examples)
  have b: "\<not> m_cancelled ?d \<and> \<not> m_bForceBinary ?d \<and> \<not> m_bUseRegex ?d
      \<and> \<not> fe_bLoadResult (mapped_text_file 3 no_hits)
      \<and> fe_type (mapped_text_file 3 no_hits) \<noteq> AutoType
      \<and> fe_type (mapped_text_file 3 no_hits) \<noteq> Binary
      \<and> be_is_open (fe_bytes (mapped_text_file 3 no_hits) 1 (fe_type (mapped_text_file 3 no_hits)) False)
      \<and> be_regEx (fe_bytes (mapped_text_file 3 no_hits) 1 (fe_type (mapped_text_file 3 no_hits)) False)
            = Some no_hits
      \<and> regex_no_throw no_hits"
    by (simp add: search_settings_def mapped_text_file_def plain_bytes_def regex_no_throw_examples)
  have a': "fe_type (loaded_text_file 3 (hit_at 1)) \<noteq> Binary"
    by (simp add: loaded_text_file_def)
  have c: "m_cancelled ?d \<or> (\<not> m_bForceBinary ?d \<and> fe_type unreadable_file = AutoType)
            \<or> (\<not> m_bForceBinary ?d \<and> fe_type unreadable_file = Binary \<and> \<not> m_bIncludeBinary ?d)"
    by (simp add: search_settings_def unreadable_file_def)
  have e1: "hit_blocks (hit_at 1) (search_matchFlags ?d)
              (te_count (fe_text (loaded_text_file 3 (hit_at 1)))) (SEARCHBLOCKSIZE div 2) \<noteq> []"
    by (simp add: loaded_text_file_def plain_text_def hit_blocks_def scan_blocks_def
        block_has_hit_def SEARCHBLOCKSIZE_def hit_at_def)
  have e2: "hit_blocks no_hits (search_matchFlags ?d)
              (be_inSize (fe_bytes (mapped_text_file 3 no_hits) 1
                 (fe_type (mapped_text_file 3 no_hits)) False)) SEARCHBLOCKSIZE = []"
    by (simp add: mapped_text_file_def plain_bytes_def hit_blocks_def scan_blocks_def
        block_has_hit_def SEARCHBLOCKSIZE_def no_hits_def)
  show ?thesis
    using h1 h2 a a' b c e1 e2
      not_search_found_iff_no_hit [OF h1 h2, where fe = "loaded_text_file 3 (hit_at 1)"
        and regEx = "hit_at 1" and fe' = "mapped_text_file 3 no_hits" and regEx' = no_hits
        and fe'' = unreadable_file and si = "CSearchInfo_new ''a.txt'' 3"]
    by (simp add: unreadable_file_def)
qed

text \<open>
  C2 as stated fails: in the inverted search a file that could not be read is sent as
  found, although its scan was skipped and the count given to \<^verbatim>\<open>SendResult\<close> is -1 and not 0.
\<close>

theorem unreadable_file_found_counterexample:
  "SearchFile (search_settings True True False) unreadable_file (CSearchInfo_new ''a.txt'' 5) =
     Some [SEARCH_PROGRESS False,
           SEARCH_FOUND True ((CSearchInfo_new ''a.txt'' 5)\<lparr>readError := True\<rparr>)]
   \<and> \<not> (SEARCH_FOUND True ((CSearchInfo_new ''a.txt'' 5)\<lparr>readError := True\<rparr>)
           \<in> set (SendResult (search_settings True True False)
                      ((CSearchInfo_new ''a.txt'' 5)\<lparr>readError := True\<rparr>) (- 1))
         \<longleftrightarrow> (- 1 :: int) = 0)"
  by (simp add: SearchFile_def search_settings_def unreadable_file_def SendResult_def Let_def
      CSearchInfo_new_def)

section \<open>Termination of the search loop\<close>














section \<open>Two defects of the matchers\<close>

text \<open>
  C5 fails on files of more than one block. In the inverted search the \<^verbatim>\<open>break\<close> at a hit
  leaves the inner loop only: the loop over the blocks goes on and counts one hit in every
  further block that has one. On a text of \<open>2 ^ 25 + 1\<close> characters, and on a file of
  \<open>2 ^ 26 + 1\<close> bytes, in which every character is a hit, the matchers return 2.
\<close>

theorem not_search_counts_blocks:
  "SearchOnTextFile (search_settings True True False) (plain_text 33554433 (Some every_char))
     {format_all, match_not_dot_newline} (CSearchInfo_new ''big.txt'' 67108866)
     = Some (Returned (CSearchInfo_new ''big.txt'' 67108866) 2)
   \<and> SearchByFilePath (search_settings True True False) (plain_bytes 67108865 (Some every_char)) 1
     {format_all, match_not_dot_newline} False (CSearchInfo_new ''big.bin'' 67108865)
     = Some (Returned (CSearchInfo_new ''big.bin'' 67108865) 2)"
  by (simp add: SearchOnTextFile_def SearchByFilePath_def plain_text_def plain_bytes_def
      search_settings_def SEARCHBLOCKSIZE_def search_blocks.simps search_while.simps every_char_def Let_def)

text \<open>
  So the count that the text matcher returns for that text is not 1.
\<close>

theorem not_search_counts_blocks_witness:
  "SearchOnTextFile (search_settings True True False) (plain_text 33554433 (Some every_char))
     {format_all, match_not_dot_newline} (CSearchInfo_new ''big.txt'' 67108866)
     \<noteq> Some (Returned (CSearchInfo_new ''big.txt'' 67108866) 1)"
  using not_search_counts_blocks by simp

text \<open>
  C1 fails for a binary file that has hits in the aligned and in the misaligned pass. The
  second call of \<^verbatim>\<open>SearchByFilePath\<close> runs its loop over all entries of \<^verbatim>\<open>matchLinesNumbers\<close>,
  also over the entry that the first call has already turned into a line number, and
  appends a length for each: the found file has two line numbers, two columns and three
  lengths.
\<close>

theorem misaligned_pass_breaks_arrays:
  "\<exists>si. SearchFile (search_settings True False True) binary_file (CSearchInfo_new ''e.dat'' 6)
          = Some [SEARCH_PROGRESS True, SEARCH_FOUND True si]
      \<and> length (matchLinesNumbers si) = 2
      \<and> length (matchColumnsNumbers si) = 2
      \<and> length (matchLengths si) = 3"
  by (simp add: SearchFile_def SearchByFilePath_def binary_file_def plain_bytes_def
      search_settings_def SEARCHBLOCKSIZE_def search_blocks.simps search_while.simps hit_at_def Let_def
      SendResult_def CSearchInfo_new_def byte_hit_def advance_past_hit_def line_loop.simps line_step_def)

text \<open>
  So the found file has more lengths than line numbers.
\<close>

theorem misaligned_pass_breaks_arrays_witness:
  "\<exists>si. SearchFile (search_settings True False True) binary_file (CSearchInfo_new ''e.dat'' 6)
          = Some [SEARCH_PROGRESS True, SEARCH_FOUND True si]
      \<and> length (matchLengths si) \<noteq> length (matchLinesNumbers si)"
  using misaligned_pass_breaks_arrays by auto

end
